theory Spec2Isabelle
  imports Main "HOL-Library.AList" "HOL-Library.Multiset"
begin

section \<open>The molecule partitioner of getMolecules.py\<close>

text \<open>
  The script reads the alignments of a 10X linked-read BAM file in file order, groups them by
  the barcode held in their \<open>RX\<close> tag and yields one interval per run of colinear reads of
  a barcode. The embedding follows \<open>get_gemcode_regions\<close> and \<open>main\<close> statement by
  statement. Python integers are \<open>int\<close>, strings are \<open>string\<close>, and every exception the
  statements can raise is a value of \<open>error\<close>. The dictionary \<open>gemcodes\<close> is an association
  list with one entry per key, in insertion order: the order in which Python (from 3.7 on)
  iterates a dictionary. Older interpreters iterate in an arbitrary order, which only permutes
  the molecules yielded at the end of the input; the properties below that concern more than
  one barcode are stated up to that order.
\<close>

subsection \<open>Data\<close>

datatype error = KeyError | IndexError | ValueError | NameError

text \<open>
  What the function reads of a \<open>pysam\<close> alignment: the name of the reference sequence, the
  leftmost aligned coordinate, and the optional tags.
\<close>

record read =
  reference_name :: string
  reference_start :: int
  tags :: "(string \<times> string) list"

text \<open>The named tuples \<open>coords\<close> and \<open>molecule\<close> of the source (\<open>end\<close> is a keyword of
  Isabelle, and \<open>chr\<close> is a field of both tuples, so the fields of \<open>molecule\<close> carry a prefix).\<close>

record coords =
  chr :: string
  pos :: int

record molecule =
  mol_chr :: string
  mol_start :: int
  mol_end :: int
  mol_barcode :: string
  mol_readcount :: int

type_synonym gemcodes = "(string \<times> coords list) list"

subsection \<open>Library operations the source calls\<close>

text \<open>\<open>read.get_tag(t)\<close> of pysam returns the value of tag \<open>t\<close> and raises \<open>KeyError\<close> when the
  alignment has no such tag.\<close>

definition get_tag :: "read \<Rightarrow> string \<Rightarrow> error + string" where
  "get_tag r t = (case map_of (tags r) t of None \<Rightarrow> Inl KeyError | Some v \<Rightarrow> Inr v)"

text \<open>\<open>xs[0]\<close> and \<open>xs[-1]\<close> raise \<open>IndexError\<close> on the empty list; \<open>min\<close> and \<open>max\<close> raise
  \<open>ValueError\<close> on it.\<close>

definition first_item :: "'a list \<Rightarrow> error + 'a" where
  "first_item xs = (case xs of [] \<Rightarrow> Inl IndexError | x # _ \<Rightarrow> Inr x)"

definition last_item :: "'a list \<Rightarrow> error + 'a" where
  "last_item xs = (case xs of [] \<Rightarrow> Inl IndexError | _ # _ \<Rightarrow> Inr (last xs))"

definition py_min :: "int list \<Rightarrow> error + int" where
  "py_min xs = (case xs of [] \<Rightarrow> Inl ValueError | x # ys \<Rightarrow> Inr (fold min ys x))"

definition py_max :: "int list \<Rightarrow> error + int" where
  "py_max xs = (case xs of [] \<Rightarrow> Inl ValueError | x # ys \<Rightarrow> Inr (fold max ys x))"

text \<open>\<open>gem in gemcodes\<close>, and the value of \<open>gemcodes[gem]\<close> for the \<open>defaultdict(list)\<close>: the
  stored list, or a fresh empty list for a key that is not there.\<close>

definition contains :: "gemcodes \<Rightarrow> string \<Rightarrow> bool" where
  "contains g gem = (map_of g gem \<noteq> None)"

definition getitem :: "gemcodes \<Rightarrow> string \<Rightarrow> coords list" where
  "getitem g gem = (case map_of g gem of None \<Rightarrow> [] | Some cs \<Rightarrow> cs)"

subsection \<open>get_gemcode_regions\<close>

text \<open>\<open>coords(read.reference_name, read.reference_start)\<close>.\<close>

definition read_coords :: "read \<Rightarrow> coords" where
  "read_coords r = \<lparr>chr = reference_name r, pos = reference_start r\<rparr>"

text \<open>The value both \<open>yield\<close> statements build from the list stored for \<open>gem\<close>:
  \<open>molecule(gemcodes[gem][0].chr, min([pos ...]), max([pos ...]), gem, len(gemcodes[gem]))\<close>,
  its arguments evaluated from left to right.\<close>

definition yield_molecule :: "string \<Rightarrow> coords list \<Rightarrow> error + molecule" where
  "yield_molecule gem cs =
     (case first_item cs of
        Inl e \<Rightarrow> Inl e
      | Inr c \<Rightarrow>
          (case py_min (map pos cs) of
             Inl e \<Rightarrow> Inl e
           | Inr lo \<Rightarrow>
               (case py_max (map pos cs) of
                  Inl e \<Rightarrow> Inl e
                | Inr hi \<Rightarrow>
                    Inr \<lparr>mol_chr = chr c, mol_start = lo, mol_end = hi,
                         mol_barcode = gem, mol_readcount = int (length cs)\<rparr>)))"

text \<open>The condition of the \<open>if\<close> in the loop over the reads:
  \<open>gem in gemcodes and (gemcodes[gem][-1].chr != read.reference_name or
  read.reference_start - gemcodes[gem][-1].pos > dist)\<close>.\<close>

definition breaks_run :: "int \<Rightarrow> gemcodes \<Rightarrow> string \<Rightarrow> read \<Rightarrow> error + bool" where
  "breaks_run dist g gem r =
     (if contains g gem then
        (case last_item (getitem g gem) of
           Inl e \<Rightarrow> Inl e
         | Inr l \<Rightarrow> Inr (chr l \<noteq> reference_name r \<or> reference_start r - pos l > dist))
      else Inr False)"

text \<open>One iteration of \<open>for read in ibam\<close>: the molecules it yields and the dictionary it
  leaves, or the exception that ends the generator.\<close>

definition process_read :: "int \<Rightarrow> gemcodes \<Rightarrow> read \<Rightarrow> error + (molecule list \<times> gemcodes)" where
  "process_read dist g r =
     (case get_tag r ''RX'' of
        Inl e \<Rightarrow> Inl e
      | Inr gem \<Rightarrow>
          (case breaks_run dist g gem r of
             Inl e \<Rightarrow> Inl e
           | Inr True \<Rightarrow>
               (case yield_molecule gem (getitem g gem) of
                  Inl e \<Rightarrow> Inl e
                | Inr m \<Rightarrow> Inr ([m], AList.update gem [read_coords r] g))
           | Inr False \<Rightarrow>
               Inr ([], AList.update gem (getitem g gem @ [read_coords r]) g)))"

text \<open>The loop over the reads: the molecules yielded so far, and the dictionary at the end of
  the input or the exception that stopped the loop.\<close>

fun read_loop :: "int \<Rightarrow> gemcodes \<Rightarrow> read list \<Rightarrow> molecule list \<times> (error + gemcodes)" where
  "read_loop dist g [] = ([], Inr g)"
| "read_loop dist g (r # rs) =
     (case process_read dist g r of
        Inl e \<Rightarrow> ([], Inl e)
      | Inr (out, g') \<Rightarrow>
          (case read_loop dist g' rs of (ms, res) \<Rightarrow> (out @ ms, res)))"

text \<open>The loop \<open>for gem in gemcodes\<close> at the end of the input.\<close>

fun gem_loop :: "gemcodes \<Rightarrow> string list \<Rightarrow> molecule list \<times> error option" where
  "gem_loop g [] = ([], None)"
| "gem_loop g (gem # gems) =
     (case yield_molecule gem (getitem g gem) of
        Inl e \<Rightarrow> ([], Some e)
      | Inr m \<Rightarrow> (case gem_loop g gems of (ms, e) \<Rightarrow> (m # ms, e)))"

text \<open>The generator: the sequence of molecules it yields, and the exception that ended it, if
  one did.\<close>

definition get_gemcode_regions :: "read list \<Rightarrow> int \<Rightarrow> molecule list \<times> error option" where
  "get_gemcode_regions ibam dist =
     (case read_loop dist [] ibam of
        (ms, Inl e) \<Rightarrow> (ms, Some e)
      | (ms, Inr g) \<Rightarrow> (case gem_loop g (map fst g) of (fs, e) \<Rightarrow> (ms @ fs, e)))"

subsection \<open>main\<close>

text \<open>\<open>'{1}'.format(n)\<close> for an integer \<open>n\<close>: its decimal digits, after a minus sign when it is
  negative. \<open>digit_char\<close> is only applied to numbers below ten.\<close>

definition digit_char :: "nat \<Rightarrow> char" where
  "digit_char d = ''0123456789'' ! d"

function str_nat :: "nat \<Rightarrow> string" where
  "str_nat n = (if n < 10 then [digit_char n] else str_nat (n div 10) @ [digit_char (n mod 10)])"
  by pat_completeness auto
termination
  by (relation "measure id") auto

declare str_nat.simps [simp del]

definition str_int :: "int \<Rightarrow> string" where
  "str_int i = (if i < 0 then CHR ''-'' # str_nat (nat (- i)) else str_nat (nat i))"

text \<open>\<open>bed_str = '{0}\t{1}\t{2}\t{3}\t{4}'.format(bed.chr, bed.start, bed.end, bed.barcode,
  bed.readcount)\<close>, and the string \<open>bed_str + '\n'\<close> that is written.\<close>

definition bed_str :: "molecule \<Rightarrow> string" where
  "bed_str bed =
     mol_chr bed @ [CHR 0x09] @ str_int (mol_start bed) @ [CHR 0x09] @ str_int (mol_end bed)
       @ [CHR 0x09] @ mol_barcode bed @ [CHR 0x09] @ str_int (mol_readcount bed)"

definition bed_line :: "molecule \<Rightarrow> string" where
  "bed_line bed = bed_str bed @ [CHR 0x0A]"

text \<open>\<open>main\<close> assigns the names \<open>parser\<close>, \<open>args\<close>, \<open>fout\<close>, \<open>bed\<close> and \<open>bed_str\<close>. Any other
  name it reads is looked up among the names the module binds (by its imports and its two
  \<open>def\<close> statements, with the names every module has) and then among the built-in names;
  a name found in neither raises \<open>NameError\<close>. The built-in names are a parameter of the
  model.\<close>

definition module_globals :: "string list" where
  "module_globals =
     [''__name__'', ''__doc__'', ''__file__'', ''__builtins__'', ''argparse'', ''defaultdict'',
      ''Counter'', ''namedtuple'', ''pysam'', ''get_gemcode_regions'', ''main'']"

definition load_global :: "string list \<Rightarrow> string \<Rightarrow> error + unit" where
  "load_global builtins name =
     (if name \<in> set module_globals \<or> name \<in> set builtins then Inr () else Inl NameError)"

text \<open>\<open>main\<close>, after the arguments are parsed: the text written to \<open>fout\<close>, and the exception
  that ends the function, if one does. An exception of the generator leaves the loop at once;
  after the loop comes \<open>f.close()\<close>.\<close>

definition main :: "string list \<Rightarrow> read list \<Rightarrow> int \<Rightarrow> string \<times> error option" where
  "main builtins ibam dist =
     (case get_gemcode_regions ibam dist of
        (beds, Some e) \<Rightarrow> (concat (map bed_line beds), Some e)
      | (beds, None) \<Rightarrow>
          (case load_global builtins ''f'' of
             Inl e \<Rightarrow> (concat (map bed_line beds), Some e)
           | Inr _ \<Rightarrow> (concat (map bed_line beds), None)))"

subsection \<open>The partition the generator computes, stated per barcode\<close>

text \<open>
  The specification describes the result barcode by barcode: the reads of one barcode, in input
  order, are cut into runs; a read continues the open run when it lies on the reference of the
  run's first read and no more than \<open>dist\<close> beyond the read appended last, and otherwise
  closes it and opens the next run; each run is reported as one summary. The definitions below
  follow that description. They are compared with the generator in the lemmas that follow.
\<close>

text \<open>A read that carries the \<open>RX\<close> tag; the reads of barcode \<open>b\<close> in an input, and the
  molecules of barcode \<open>b\<close> in an output, both in order.\<close>

definition has_barcode :: "read \<Rightarrow> bool" where
  "has_barcode r = (case get_tag r ''RX'' of Inl _ \<Rightarrow> False | Inr _ \<Rightarrow> True)"

definition reads_of :: "string \<Rightarrow> read list \<Rightarrow> read list" where
  "reads_of b ibam = filter (\<lambda>r. get_tag r ''RX'' = Inr b) ibam"

definition summaries_of :: "string \<Rightarrow> molecule list \<Rightarrow> molecule list" where
  "summaries_of b ms = filter (\<lambda>m. mol_barcode m = b) ms"

text \<open>The summary of a run: the reference of its first read, the least and the greatest
  coordinate, the barcode, and the number of reads.\<close>

definition summary :: "string \<Rightarrow> coords list \<Rightarrow> molecule" where
  "summary b run =
     \<lparr>mol_chr = chr (hd run), mol_start = Min (set (map pos run)), mol_end = Max (set (map pos run)),
      mol_barcode = b, mol_readcount = int (length run)\<rparr>"

text \<open>The continuity test of an incoming read against the open run \<open>opn\<close>.\<close>

definition continuous :: "int \<Rightarrow> coords list \<Rightarrow> coords \<Rightarrow> bool" where
  "continuous dist opn c = (chr c = chr (hd opn) \<and> pos c - pos (last opn) \<le> dist)"

text \<open>The runs of one barcode: \<open>opn\<close> is the open run (\<open>[]\<close> when the barcode has none), the
  list holds the reads still to come. A read opens a run when there is none, extends the open
  run when it is continuous with it, and otherwise closes it and opens a new one; the end of
  the input closes the open run.\<close>

fun partition_runs :: "int \<Rightarrow> coords list \<Rightarrow> coords list \<Rightarrow> coords list list" where
  "partition_runs dist opn [] = (if opn = [] then [] else [opn])"
| "partition_runs dist opn (c # cs) =
     (if opn = [] then partition_runs dist [c] cs
      else if continuous dist opn c then partition_runs dist (opn @ [c]) cs
      else opn # partition_runs dist [c] cs)"

text \<open>The invariant of the dictionary: the keys are distinct, and every stored run is
  non-empty and lies on one reference.\<close>

definition one_reference :: "coords list \<Rightarrow> bool" where
  "one_reference cs = (cs \<noteq> [] \<and> (\<forall>c\<in>set cs. chr c = chr (hd cs)))"

definition open_runs_ok :: "gemcodes \<Rightarrow> bool" where
  "open_runs_ok g = (distinct (map fst g) \<and> (\<forall>(gem, cs)\<in>set g. one_reference cs))"

text \<open>The number of reads held in the open runs of a dictionary.\<close>

definition open_reads :: "gemcodes \<Rightarrow> nat" where
  "open_reads g = sum_list (map (\<lambda>(gem, cs). length cs) g)"

text \<open>A read at a position, tagged with a barcode: the triples the examples are written with.\<close>

definition read_position :: "string \<Rightarrow> int \<Rightarrow> string \<Rightarrow> read" where
  "read_position c p b = \<lparr>reference_name = c, reference_start = p, tags = [(''RX'', b)]\<rparr>"

section \<open>Properties\<close>

subsection \<open>Closing a run\<close>

lemma yield_molecule_summary:
  assumes "cs \<noteq> []"
  shows "yield_molecule gem cs = Inr (summary gem cs)"
proof (cases cs)
  case Nil
  then show ?thesis using assms by simp
next
  case (Cons c cs')
  have "fold min (map pos cs') (pos c) = Min (set (map pos cs))"
    unfolding Cons list.map by (rule Min.set_eq_fold [symmetric])
  moreover have "fold max (map pos cs') (pos c) = Max (set (map pos cs))"
    unfolding Cons list.map by (rule Max.set_eq_fold [symmetric])
  ultimately show ?thesis
    by (simp add: Cons yield_molecule_def first_item_def py_min_def py_max_def summary_def
        del: set_map)
qed

subsection \<open>The invariant of the dictionary\<close>

lemma one_reference_nonempty: "one_reference cs \<Longrightarrow> cs \<noteq> []"
  unfolding one_reference_def by blast

lemma one_reference_chr: "one_reference cs \<Longrightarrow> c \<in> set cs \<Longrightarrow> chr c = chr (hd cs)"
  unfolding one_reference_def by blast

lemma one_reference_last: "one_reference cs \<Longrightarrow> chr (last cs) = chr (hd cs)"
  using one_reference_chr [of cs "last cs"] one_reference_nonempty [of cs] by simp

lemma one_reference_single: "one_reference [c]"
  by (simp add: one_reference_def)

lemma one_reference_append:
  assumes "one_reference cs" "chr c = chr (hd cs)"
  shows "one_reference (cs @ [c])"
proof -
  have ne: "cs \<noteq> []" using assms(1) by (rule one_reference_nonempty)
  then have hd: "hd (cs @ [c]) = hd cs" by simp
  have "\<forall>d\<in>set (cs @ [c]). chr d = chr (hd cs)"
    using assms one_reference_chr [OF assms(1)] by auto
  then show ?thesis
    unfolding one_reference_def hd by blast
qed

lemma open_runs_ok_lookup:
  "open_runs_ok g \<Longrightarrow> map_of g gem = Some cs \<Longrightarrow> one_reference cs"
  unfolding open_runs_ok_def by (blast dest: map_of_SomeD)

lemma open_runs_ok_empty: "open_runs_ok []"
  by (simp add: open_runs_ok_def)

lemma set_update_subset: "set (AList.update k v al) \<subseteq> insert (k, v) (set al)"
  by (induction al) auto

lemma open_runs_ok_update:
  assumes "open_runs_ok g" "one_reference cs"
  shows "open_runs_ok (AList.update gem cs g)"
proof -
  have "distinct (map fst (AList.update gem cs g))"
    using assms(1) by (simp add: open_runs_ok_def distinct_update)
  moreover have "\<forall>(b, run)\<in>set (AList.update gem cs g). one_reference run"
    using assms set_update_subset [of gem cs g] unfolding open_runs_ok_def by blast
  ultimately show ?thesis unfolding open_runs_ok_def by blast
qed

subsection \<open>One iteration of the loop over the reads\<close>

lemma process_read_new:
  assumes "get_tag r ''RX'' = Inr gem" "map_of g gem = None"
  shows "process_read dist g r = Inr ([], AList.update gem [read_coords r] g)"
  using assms by (simp add: process_read_def breaks_run_def contains_def getitem_def)

lemma process_read_append:
  assumes "get_tag r ''RX'' = Inr gem" "map_of g gem = Some cs" "cs \<noteq> []"
    and "chr (last cs) = reference_name r" "reference_start r - pos (last cs) \<le> dist"
  shows "process_read dist g r = Inr ([], AList.update gem (cs @ [read_coords r]) g)"
  using assms
  by (cases cs) (simp_all add: process_read_def breaks_run_def contains_def getitem_def last_item_def)

lemma process_read_close:
  assumes "get_tag r ''RX'' = Inr gem" "map_of g gem = Some cs" "cs \<noteq> []"
    and "chr (last cs) \<noteq> reference_name r \<or> reference_start r - pos (last cs) > dist"
  shows "process_read dist g r = Inr ([summary gem cs], AList.update gem [read_coords r] g)"
proof -
  from assms(3) obtain c cs' where cs: "cs = c # cs'" by (cases cs) auto
  have "breaks_run dist g gem r = Inr True"
    using assms(2,4) by (simp add: breaks_run_def contains_def getitem_def last_item_def cs)
  then show ?thesis
    using assms(1,2) yield_molecule_summary [OF assms(3), of gem]
    by (simp add: process_read_def getitem_def)
qed


lemma getitem_update: "getitem (AList.update k v g) k' = (if k' = k then v else getitem g k')"
  by (simp add: getitem_def update_conv')

lemma process_read_step:
  assumes ok: "open_runs_ok g" and tag: "get_tag r ''RX'' = Inr gem"
  shows "\<exists>out run. process_read dist g r = Inr (map (summary gem) out, AList.update gem run g)
           \<and> one_reference run
           \<and> (\<forall>cs. partition_runs dist (getitem g gem) (read_coords r # cs)
                     = out @ partition_runs dist run cs)"
proof (cases "map_of g gem")
  case None
  then have "getitem g gem = []" by (simp add: getitem_def)
  then show ?thesis
    using process_read_new [OF tag None, of dist] one_reference_single [of "read_coords r"]
    by (intro exI [of _ "[]"] exI [of _ "[read_coords r]"]) simp
next
  case (Some opn)
  then have opn: "getitem g gem = opn" by (simp add: getitem_def)
  have one: "one_reference opn" using ok Some by (rule open_runs_ok_lookup)
  then have ne: "opn \<noteq> []" by (rule one_reference_nonempty)
  have lst: "chr (last opn) = chr (hd opn)" using one by (rule one_reference_last)
  show ?thesis
  proof (cases "continuous dist opn (read_coords r)")
    case True
    then have "chr (last opn) = reference_name r" "reference_start r - pos (last opn) \<le> dist"
      using lst by (simp_all add: continuous_def read_coords_def)
    then have "process_read dist g r = Inr ([], AList.update gem (opn @ [read_coords r]) g)"
      using process_read_append [OF tag Some ne] by simp
    moreover have "one_reference (opn @ [read_coords r])"
      using one True by (intro one_reference_append) (simp_all add: continuous_def)
    ultimately show ?thesis
      using True ne opn
      by (intro exI [of _ "[]"] exI [of _ "opn @ [read_coords r]"]) simp
  next
    case False
    then have "chr (last opn) \<noteq> reference_name r \<or> reference_start r - pos (last opn) > dist"
      using lst by (auto simp add: continuous_def read_coords_def)
    then have "process_read dist g r = Inr ([summary gem opn], AList.update gem [read_coords r] g)"
      using process_read_close [OF tag Some ne] by simp
    then show ?thesis
      using False ne opn one_reference_single [of "read_coords r"]
      by (intro exI [of _ "[opn]"] exI [of _ "[read_coords r]"]) simp
  qed
qed

subsection \<open>The generator computes the partition of each barcode's reads\<close>

lemma summaries_of_append [simp]:
  "summaries_of b (xs @ ys) = summaries_of b xs @ summaries_of b ys"
  by (simp add: summaries_of_def)

lemma summaries_of_summary [simp]:
  "summaries_of b (map (summary gem) runs) = (if b = gem then map (summary gem) runs else [])"
  by (induction runs) (simp_all add: summaries_of_def summary_def)

lemma has_barcodeE: "has_barcode r \<Longrightarrow> \<exists>gem. get_tag r ''RX'' = Inr gem"
  by (cases "get_tag r ''RX''") (simp_all add: has_barcode_def)

lemma read_loop_refines:
  assumes "open_runs_ok g" "\<forall>r\<in>set rs. has_barcode r"
  shows "\<exists>ms g'. read_loop dist g rs = (ms, Inr g') \<and> open_runs_ok g'
           \<and> (\<forall>b. summaries_of b ms @ map (summary b) (partition_runs dist (getitem g' b) [])
                  = map (summary b)
                      (partition_runs dist (getitem g b) (map read_coords (reads_of b rs))))"
  using assms
proof (induction rs arbitrary: g)
  case Nil
  then show ?case by (simp add: reads_of_def summaries_of_def)
next
  case (Cons r rs)
  from Cons.prems obtain gem where tag: "get_tag r ''RX'' = Inr gem"
    using has_barcodeE [of r] by auto
  from process_read_step [OF Cons.prems(1) tag, of dist]
  obtain out run where
    step: "process_read dist g r = Inr (map (summary gem) out, AList.update gem run g)"
    and one: "one_reference run"
    and part: "\<And>cs. partition_runs dist (getitem g gem) (read_coords r # cs)
                 = out @ partition_runs dist run cs"
    by blast
  let ?g1 = "AList.update gem run g"
  have ok1: "open_runs_ok ?g1" using Cons.prems(1) one by (rule open_runs_ok_update)
  from Cons.IH [OF ok1] Cons.prems(2)
  obtain ms g' where
    loop: "read_loop dist ?g1 rs = (ms, Inr g')" and ok': "open_runs_ok g'"
    and ref: "\<And>b. summaries_of b ms @ map (summary b) (partition_runs dist (getitem g' b) [])
               = map (summary b)
                   (partition_runs dist (getitem ?g1 b) (map read_coords (reads_of b rs)))"
    by auto
  have res: "read_loop dist g (r # rs) = (map (summary gem) out @ ms, Inr g')"
    using step loop by simp
  have "summaries_of b (map (summary gem) out @ ms)
          @ map (summary b) (partition_runs dist (getitem g' b) [])
        = map (summary b)
            (partition_runs dist (getitem g b) (map read_coords (reads_of b (r # rs))))" for b
  proof (cases "b = gem")
    case True
    then show ?thesis
      using ref [of gem] part tag by (simp add: reads_of_def getitem_update)
  next
    case False
    then show ?thesis
      using ref [of b] tag by (simp add: reads_of_def getitem_update)
  qed
  with res ok' show ?case by blast
qed


lemma gem_loop_summaries:
  assumes "\<forall>gem\<in>set gems. getitem g gem \<noteq> []"
  shows "gem_loop g gems = (map (\<lambda>gem. summary gem (getitem g gem)) gems, None)"
  using assms by (induction gems) (simp_all add: yield_molecule_summary)

lemma getitem_key:
  assumes "open_runs_ok g" "gem \<in> set (map fst g)"
  shows "getitem g gem \<noteq> []"
proof -
  from assms(2) obtain cs where "map_of g gem = Some cs"
    by (metis map_of_eq_None_iff not_Some_eq set_map)
  then show ?thesis
    using open_runs_ok_lookup [OF assms(1)] one_reference_nonempty by (auto simp: getitem_def)
qed

lemma getitem_no_key:
  assumes "gem \<notin> set (map fst g)"
  shows "getitem g gem = []"
proof -
  have "map_of g gem = None" using assms by (simp add: map_of_eq_None_iff)
  then show ?thesis by (simp add: getitem_def)
qed

lemma summaries_of_keys:
  assumes "distinct gems"
  shows "summaries_of b (map (\<lambda>gem. summary gem (f gem)) gems)
           = (if b \<in> set gems then [summary b (f b)] else [])"
  using assms by (induction gems) (auto simp: summaries_of_def summary_def)

lemma flush_open_runs:
  assumes "open_runs_ok g"
  shows "gem_loop g (map fst g) = (map (\<lambda>gem. summary gem (getitem g gem)) (map fst g), None)"
    and "summaries_of b (map (\<lambda>gem. summary gem (getitem g gem)) (map fst g))
           = map (summary b) (partition_runs dist (getitem g b) [])"
proof -
  show "gem_loop g (map fst g) = (map (\<lambda>gem. summary gem (getitem g gem)) (map fst g), None)"
    using getitem_key [OF assms] by (intro gem_loop_summaries) blast
  have "distinct (map fst g)" using assms by (simp add: open_runs_ok_def)
  then show "summaries_of b (map (\<lambda>gem. summary gem (getitem g gem)) (map fst g))
           = map (summary b) (partition_runs dist (getitem g b) [])"
    using getitem_key [OF assms, of b] getitem_no_key [of b g]
    by (simp only: summaries_of_keys) auto
qed

lemma getitem_empty [simp]: "getitem [] b = []"
  by (simp add: getitem_def)

lemma get_gemcode_regions_refines:
  assumes "\<forall>r\<in>set ibam. has_barcode r"
  shows "\<exists>ms. get_gemcode_regions ibam dist = (ms, None)
           \<and> (\<forall>b. summaries_of b ms
                  = map (summary b) (partition_runs dist [] (map read_coords (reads_of b ibam))))"
proof -
  from read_loop_refines [OF open_runs_ok_empty assms, of dist]
  obtain ms g where
    loop: "read_loop dist [] ibam = (ms, Inr g)" and ok: "open_runs_ok g"
    and ref: "\<And>b. summaries_of b ms @ map (summary b) (partition_runs dist (getitem g b) [])
               = map (summary b) (partition_runs dist [] (map read_coords (reads_of b ibam)))"
    by auto
  let ?fs = "map (\<lambda>gem. summary gem (getitem g gem)) (map fst g)"
  have "get_gemcode_regions ibam dist = (ms @ ?fs, None)"
    using loop flush_open_runs(1) [OF ok] by (simp add: get_gemcode_regions_def)
  moreover have "summaries_of b (ms @ ?fs)
      = map (summary b) (partition_runs dist [] (map read_coords (reads_of b ibam)))" for b
    using ref [of b] flush_open_runs(2) [OF ok, of b dist] by simp
  ultimately show ?thesis by blast
qed

subsection \<open>The runs of a barcode\<close>

lemma partition_runs_concat:
  "concat (partition_runs dist opn cs) = opn @ cs"
  by (induction cs arbitrary: opn) simp_all

lemma partition_runs_one_reference:
  assumes "opn = [] \<or> one_reference opn" "run \<in> set (partition_runs dist opn cs)"
  shows "one_reference run"
  using assms
proof (induction cs arbitrary: opn)
  case Nil
  then show ?case by (auto split: if_splits)
next
  case (Cons c cs)
  show ?case
  proof (cases "opn = []")
    case True
    then show ?thesis
      using Cons.IH [of "[c]"] Cons.prems(2) one_reference_single by simp
  next
    case False
    then have one: "one_reference opn" using Cons.prems(1) by simp
    show ?thesis
    proof (cases "continuous dist opn c")
      case True
      then have "one_reference (opn @ [c])"
        using one by (intro one_reference_append) (simp_all add: continuous_def)
      then show ?thesis
        using Cons.IH [of "opn @ [c]"] Cons.prems(2) False True by simp
    next
      case False
      then show ?thesis
        using Cons.IH [of "[c]"] Cons.prems(2) \<open>opn \<noteq> []\<close> one one_reference_single by auto
    qed
  qed
qed

subsection \<open>Reachable dictionaries\<close>

lemma read_loop_ok:
  assumes "open_runs_ok g" "snd (read_loop dist g rs) = Inr g'"
  shows "open_runs_ok g'"
  using assms
proof (induction rs arbitrary: g)
  case Nil
  then show ?case by simp
next
  case (Cons r rs)
  from Cons.prems(2) obtain out g1 where step: "process_read dist g r = Inr (out, g1)"
    by (cases "process_read dist g r") auto
  then obtain gem where tag: "get_tag r ''RX'' = Inr gem"
    by (cases "get_tag r ''RX''") (simp_all add: process_read_def)
  from process_read_step [OF Cons.prems(1) tag, of dist] step
  have "open_runs_ok g1" using Cons.prems(1) open_runs_ok_update by auto
  moreover have "snd (read_loop dist g1 rs) = Inr g'"
    using Cons.prems(2) step by (simp split: prod.splits)
  ultimately show ?case by (rule Cons.IH)
qed

lemma reachable_ok: "snd (read_loop dist [] pre) = Inr g \<Longrightarrow> open_runs_ok g"
  using read_loop_ok [OF open_runs_ok_empty] .

subsection \<open>Counting reads\<close>

lemma total_update:
  "open_reads (AList.update k v g) + length (getitem g k) = open_reads g + length v"
  by (induction g) (auto simp: getitem_def open_reads_def)

lemma open_reads_empty [simp]: "open_reads [] = 0"
  by (simp add: open_reads_def)

lemma readcount_summaries:
  "sum_list (map mol_readcount (map (summary gem) out)) = int (length (concat out))"
  by (induction out) (simp_all add: summary_def)

lemma read_loop_count:
  assumes "open_runs_ok g" "\<forall>r\<in>set rs. has_barcode r"
  shows "\<exists>ms g'. read_loop dist g rs = (ms, Inr g')
           \<and> sum_list (map mol_readcount ms) + int (open_reads g')
               = int (open_reads g) + int (length rs)"
  using assms
proof (induction rs arbitrary: g)
  case Nil
  then show ?case by simp
next
  case (Cons r rs)
  from Cons.prems obtain gem where tag: "get_tag r ''RX'' = Inr gem"
    using has_barcodeE [of r] by auto
  from process_read_step [OF Cons.prems(1) tag, of dist]
  obtain out run where
    step: "process_read dist g r = Inr (map (summary gem) out, AList.update gem run g)"
    and one: "one_reference run"
    and part: "\<And>cs. partition_runs dist (getitem g gem) (read_coords r # cs)
                 = out @ partition_runs dist run cs"
    by blast
  let ?g1 = "AList.update gem run g"
  have ne: "run \<noteq> []" using one by (rule one_reference_nonempty)
  have "concat (partition_runs dist (getitem g gem) [read_coords r]) = concat (out @ [run])"
    using part [of "[]"] ne by simp
  then have "getitem g gem @ [read_coords r] = concat out @ run"
    by (simp only: partition_runs_concat concat_append) simp
  then have "length (getitem g gem) + 1 = length (concat out) + length run"
    by (metis length_append length_append_singleton Suc_eq_plus1)
  with total_update [of gem run g]
  have tot: "int (open_reads ?g1) + int (length (concat out))
               = int (open_reads g) + 1"
    by linarith
  have ok1: "open_runs_ok ?g1" using Cons.prems(1) one by (rule open_runs_ok_update)
  have "\<forall>r\<in>set rs. has_barcode r" using Cons.prems(2) by simp
  from Cons.IH [OF ok1 this]
  obtain ms g' where
    loop: "read_loop dist ?g1 rs = (ms, Inr g')"
    and cnt: "sum_list (map mol_readcount ms) + int (open_reads g')
               = int (open_reads ?g1) + int (length rs)"
    by blast
  have "read_loop dist g (r # rs) = (map (summary gem) out @ ms, Inr g')"
    using step loop by simp
  moreover have "sum_list (map mol_readcount (map (summary gem) out @ ms))
                   + int (open_reads g')
                 = int (open_reads g) + int (length (r # rs))"
    using cnt tot readcount_summaries [of gem out] by simp
  ultimately show ?case by blast
qed

lemma flush_items:
  assumes "distinct (map fst g)"
  shows "map (\<lambda>gem. summary gem (getitem g gem)) (map fst g) = map (\<lambda>(gem, cs). summary gem cs) g"
proof -
  have "getitem g (fst p) = snd p" if "p \<in> set g" for p
  proof -
    have "map_of g (fst p) = Some (snd p)" using assms that by simp
    then show ?thesis by (simp add: getitem_def)
  qed
  then show ?thesis by (simp add: case_prod_unfold)
qed

lemma flush_count:
  "sum_list (map mol_readcount (map (\<lambda>(gem, cs). summary gem cs) g))
     = int (open_reads g)"
  by (induction g) (auto simp: summary_def open_reads_def)

lemma get_gemcode_regions_flush:
  assumes "snd (read_loop dist [] ibam) = Inr g"
  shows "get_gemcode_regions ibam dist
           = (fst (read_loop dist [] ibam) @ map (\<lambda>(gem, cs). summary gem cs) g, None)"
proof -
  have ok: "open_runs_ok g" using assms by (rule reachable_ok)
  then have "distinct (map fst g)" by (simp add: open_runs_ok_def)
  then show ?thesis
    using assms flush_open_runs(1) [OF ok] flush_items [of g]
    by (cases "read_loop dist [] ibam") (simp add: get_gemcode_regions_def)
qed

subsection \<open>The run behind each molecule\<close>

lemma partition_runs_nonempty:
  "opn \<noteq> [] \<or> cs \<noteq> [] \<Longrightarrow> partition_runs dist opn cs \<noteq> []"
  using partition_runs_concat [of dist opn cs] by auto

lemma emitted_run:
  assumes "\<forall>r\<in>set ibam. has_barcode r" "m \<in> set (fst (get_gemcode_regions ibam dist))"
  shows "\<exists>run\<in>set (partition_runs dist [] (map read_coords (reads_of (mol_barcode m) ibam))).
           m = summary (mol_barcode m) run \<and> one_reference run"
proof -
  let ?b = "mol_barcode m"
  let ?runs = "partition_runs dist [] (map read_coords (reads_of ?b ibam))"
  from get_gemcode_regions_refines [OF assms(1), of dist]
  have "summaries_of ?b (fst (get_gemcode_regions ibam dist)) = map (summary ?b) ?runs"
    by auto
  moreover have "m \<in> set (summaries_of ?b (fst (get_gemcode_regions ibam dist)))"
    using assms(2) by (simp add: summaries_of_def)
  ultimately obtain run where "run \<in> set ?runs" "m = summary ?b run" by auto
  moreover from this have "one_reference run"
    using partition_runs_one_reference [of "[]" run dist] by simp
  ultimately show ?thesis by blast
qed

lemma summary_interval:
  assumes "run \<noteq> []"
  shows "mol_start (summary b run) = Min (pos ` set run)"
    and "mol_end (summary b run) = Max (pos ` set run)"
    and "mol_start (summary b run) \<le> mol_end (summary b run)"
    and "mol_readcount (summary b run) = int (length run)"
    and "length run = 1 \<Longrightarrow> mol_start (summary b run) = mol_end (summary b run)"
proof -
  show "mol_start (summary b run) = Min (pos ` set run)"
    and "mol_end (summary b run) = Max (pos ` set run)"
    and "mol_readcount (summary b run) = int (length run)"
    by (simp_all add: summary_def)
  have "pos (hd run) \<in> pos ` set run" using assms by simp
  then have "Min (pos ` set run) \<le> pos (hd run)" "pos (hd run) \<le> Max (pos ` set run)"
    by (simp_all only: Min_le Max_ge finite_imageI finite_set)
  then have "Min (pos ` set run) \<le> Max (pos ` set run)" by linarith
  then show "mol_start (summary b run) \<le> mol_end (summary b run)"
    by (simp add: summary_def)
  show "mol_start (summary b run) = mol_end (summary b run)" if "length run = 1"
  proof -
    from that obtain c where "run = [c]" by (cases run) auto
    then show ?thesis by (simp add: summary_def)
  qed
qed

subsection \<open>One iteration, from a reachable dictionary\<close>

lemma process_read_open:
  assumes "snd (read_loop dist [] pre) = Inr g" "get_tag r ''RX'' = Inr gem" "map_of g gem = Some cs"
  shows "cs \<noteq> []"
    and "chr (last cs) = chr (hd cs)"
    and "continuous dist cs (read_coords r) \<Longrightarrow>
           process_read dist g r = Inr ([], AList.update gem (cs @ [read_coords r]) g)"
    and "\<not> continuous dist cs (read_coords r) \<Longrightarrow>
           process_read dist g r = Inr ([summary gem cs], AList.update gem [read_coords r] g)"
proof -
  have ok: "open_runs_ok g" using assms(1) by (rule reachable_ok)
  have one: "one_reference cs" using ok assms(3) by (rule open_runs_ok_lookup)
  then show ne: "cs \<noteq> []" by (rule one_reference_nonempty)
  show lst: "chr (last cs) = chr (hd cs)" using one by (rule one_reference_last)
  show "process_read dist g r = Inr ([], AList.update gem (cs @ [read_coords r]) g)"
    if "continuous dist cs (read_coords r)"
    using that lst
    by (intro process_read_append [OF assms(2,3) ne]) (simp_all add: continuous_def read_coords_def)
  show "process_read dist g r = Inr ([summary gem cs], AList.update gem [read_coords r] g)"
    if "\<not> continuous dist cs (read_coords r)"
    using that lst
    by (intro process_read_close [OF assms(2,3) ne]) (auto simp add: continuous_def read_coords_def)
qed

lemma read_loop_append:
  "read_loop dist g (pre @ rs) =
     (case read_loop dist g pre of
        (ms, Inl e) \<Rightarrow> (ms, Inl e)
      | (ms, Inr g') \<Rightarrow> (case read_loop dist g' rs of (ms', res) \<Rightarrow> (ms @ ms', res)))"
  by (induction pre arbitrary: g) (auto split: sum.splits prod.splits)

lemma process_read_untagged: "\<not> has_barcode r \<Longrightarrow> process_read dist g r = Inl KeyError"
  by (auto simp: has_barcode_def process_read_def get_tag_def split: option.splits)

subsection \<open>Evaluation\<close>

lemmas run_defs =
  get_gemcode_regions_def process_read_def get_tag_def breaks_run_def contains_def getitem_def
  last_item_def first_item_def yield_molecule_def py_min_def py_max_def read_coords_def

lemmas run_defs' = run_defs read_position_def

section \<open>The claims\<close>

text \<open>
  C1 (conservation). When every read of the input carries a barcode, the generator ends without
  an exception and the read counts of the molecules it yields add up to the number of input
  reads. Moreover, for each barcode the molecules yielded with it are the summaries of a list
  of runs whose concatenation is the sequence of that barcode's reads, in input order: each
  read lies in exactly one run.
\<close>

theorem conservation:
  assumes "\<forall>r\<in>set ibam. has_barcode r"
  shows "snd (get_gemcode_regions ibam dist) = None
     \<and> sum_list (map mol_readcount (fst (get_gemcode_regions ibam dist))) = int (length ibam)
     \<and> (\<forall>b. \<exists>runs. summaries_of b (fst (get_gemcode_regions ibam dist)) = map (summary b) runs
              \<and> concat runs = map read_coords (reads_of b ibam))"
proof -
  from read_loop_count [OF open_runs_ok_empty assms, of dist]
  obtain ms g where loop: "read_loop dist [] ibam = (ms, Inr g)"
    and cnt: "sum_list (map mol_readcount ms) + int (open_reads g)
                = int (length ibam)"
    by auto
  have res: "get_gemcode_regions ibam dist = (ms @ map (\<lambda>(gem, cs). summary gem cs) g, None)"
    using get_gemcode_regions_flush [of dist ibam g] loop by simp
  have "sum_list (map mol_readcount (fst (get_gemcode_regions ibam dist))) = int (length ibam)"
    using cnt flush_count [of g] by (simp add: res)
  moreover have "\<exists>runs. summaries_of b (fst (get_gemcode_regions ibam dist)) = map (summary b) runs
              \<and> concat runs = map read_coords (reads_of b ibam)" for b
    using get_gemcode_regions_refines [OF assms, of dist]
      partition_runs_concat [of dist "[]" "map read_coords (reads_of b ibam)"]
    by (intro exI [of _ "partition_runs dist [] (map read_coords (reads_of b ibam))"]) auto
  ultimately show ?thesis using res by simp
qed

theorem conservation_witness:
  "list_all has_barcode [read_position ''chr1'' 100 ''AA'', read_position ''chr1'' 140 ''AA'',
               read_position ''chr2'' 7 ''CC'', read_position ''chr1'' 300 ''AA'']
   \<and> sum_list (map mol_readcount (fst (get_gemcode_regions
         [read_position ''chr1'' 100 ''AA'', read_position ''chr1'' 140 ''AA'',
          read_position ''chr2'' 7 ''CC'', read_position ''chr1'' 300 ''AA''] 50))) = 4"
proof -
  have h: "\<forall>r\<in>set [read_position ''chr1'' 100 ''AA'', read_position ''chr1'' 140 ''AA'',
               read_position ''chr2'' 7 ''CC'', read_position ''chr1'' 300 ''AA'']. has_barcode r"
    by (simp add: has_barcode_def get_tag_def read_position_def)
  from conservation [OF h, of 50] show ?thesis by (simp add: read_position_def has_barcode_def get_tag_def)
qed

text \<open>
  C2 (interval correctness). A molecule is only ever built from a non-empty stored run, and then
  its start is the least and its end the greatest position in that run, start \<open>\<le>\<close> end, and
  its read count is the length of the run. Every molecule the generator yields on a fully tagged
  input is the summary of one of the runs into which the reads of its barcode are cut, with
  these bounds; a run of a single read gives start = end and read count 1, and a barcode carried
  by exactly one read yields exactly one molecule, at that read's position, with read count 1.
\<close>

theorem interval_correctness:
  "(\<forall>gem cs m. yield_molecule gem cs = Inr m \<longrightarrow>
       cs \<noteq> [] \<and> mol_start m = Min (pos ` set cs) \<and> mol_end m = Max (pos ` set cs)
       \<and> mol_start m \<le> mol_end m \<and> mol_readcount m = int (length cs))
   \<and> ((\<forall>r\<in>set ibam. has_barcode r) \<longrightarrow>
        (\<forall>m\<in>set (fst (get_gemcode_regions ibam dist)).
           \<exists>run\<in>set (partition_runs dist [] (map read_coords (reads_of (mol_barcode m) ibam))).
             run \<noteq> [] \<and> mol_start m = Min (pos ` set run) \<and> mol_end m = Max (pos ` set run)
             \<and> mol_start m \<le> mol_end m \<and> mol_readcount m = int (length run)
             \<and> (length run = 1 \<longrightarrow> mol_start m = mol_end m \<and> mol_readcount m = 1))
        \<and> (\<forall>b r. reads_of b ibam = [r] \<longrightarrow>
             summaries_of b (fst (get_gemcode_regions ibam dist))
               = [\<lparr>mol_chr = reference_name r, mol_start = reference_start r,
                    mol_end = reference_start r, mol_barcode = b, mol_readcount = 1\<rparr>]))"
proof (intro conjI allI impI ballI)
  fix gem cs m
  assume y: "yield_molecule gem cs = Inr m"
  then show ne: "cs \<noteq> []" by (auto simp: yield_molecule_def first_item_def)
  then have m: "m = summary gem cs" using y yield_molecule_summary [of cs gem] by simp
  show "mol_start m = Min (pos ` set cs)" "mol_end m = Max (pos ` set cs)"
    "mol_start m \<le> mol_end m" "mol_readcount m = int (length cs)"
    unfolding m using summary_interval [OF ne, of gem] by simp_all
next
  fix m
  assume tagged: "\<forall>r\<in>set ibam. has_barcode r"
    and m: "m \<in> set (fst (get_gemcode_regions ibam dist))"
  from emitted_run [OF tagged m] obtain run where
    run: "run \<in> set (partition_runs dist [] (map read_coords (reads_of (mol_barcode m) ibam)))"
    and eq0: "m = summary (mol_barcode m) run" and one: "one_reference run"
    by blast
  define b where "b = mol_barcode m"
  have eq: "m = summary b run" using eq0 by (simp only: b_def)
  have ne: "run \<noteq> []" using one by (rule one_reference_nonempty)
  have "run \<noteq> [] \<and> mol_start m = Min (pos ` set run) \<and> mol_end m = Max (pos ` set run)
      \<and> mol_start m \<le> mol_end m \<and> mol_readcount m = int (length run)
      \<and> (length run = 1 \<longrightarrow> mol_start m = mol_end m \<and> mol_readcount m = 1)"
    unfolding eq using summary_interval [OF ne, of b] ne by simp
  with run show "\<exists>run\<in>set (partition_runs dist [] (map read_coords (reads_of (mol_barcode m) ibam))).
             run \<noteq> [] \<and> mol_start m = Min (pos ` set run) \<and> mol_end m = Max (pos ` set run)
             \<and> mol_start m \<le> mol_end m \<and> mol_readcount m = int (length run)
             \<and> (length run = 1 \<longrightarrow> mol_start m = mol_end m \<and> mol_readcount m = 1)"
    by blast
next
  fix b r
  assume tagged: "\<forall>r\<in>set ibam. has_barcode r" and one: "reads_of b ibam = [r]"
  from get_gemcode_regions_refines [OF tagged, of dist]
  have "summaries_of b (fst (get_gemcode_regions ibam dist))
          = map (summary b) (partition_runs dist [] (map read_coords (reads_of b ibam)))"
    by auto
  then show "summaries_of b (fst (get_gemcode_regions ibam dist))
               = [\<lparr>mol_chr = reference_name r, mol_start = reference_start r,
                    mol_end = reference_start r, mol_barcode = b, mol_readcount = 1\<rparr>]"
    by (simp add: one summary_def read_coords_def)
qed

theorem interval_correctness_witness:
  "yield_molecule ''AA'' [\<lparr>chr = ''chr1'', pos = 140\<rparr>, \<lparr>chr = ''chr1'', pos = 100\<rparr>]
     = Inr \<lparr>mol_chr = ''chr1'', mol_start = 100, mol_end = 140, mol_barcode = ''AA'',
            mol_readcount = 2\<rparr>
   \<and> list_all has_barcode [read_position ''chr1'' 100 ''AA'', read_position ''chr1'' 140 ''AA'',
                  read_position ''chr2'' 7 ''CC'', read_position ''chr1'' 300 ''AA'']
   \<and> reads_of ''CC'' [read_position ''chr1'' 100 ''AA'', read_position ''chr1'' 140 ''AA'',
                       read_position ''chr2'' 7 ''CC'', read_position ''chr1'' 300 ''AA'']
       = [read_position ''chr2'' 7 ''CC'']
   \<and> \<lparr>mol_chr = ''chr1'', mol_start = 100, mol_end = 140, mol_barcode = ''AA'', mol_readcount = 2\<rparr>
       \<in> set (fst (get_gemcode_regions
                     [read_position ''chr1'' 100 ''AA'', read_position ''chr1'' 140 ''AA'',
                      read_position ''chr2'' 7 ''CC'', read_position ''chr1'' 300 ''AA''] 50))
   \<and> mol_start \<lparr>mol_chr = ''chr1'', mol_start = 100, mol_end = 140, mol_barcode = ''AA'',
                 mol_readcount = 2\<rparr>
       = Min (pos ` set [\<lparr>chr = ''chr1'', pos = 140\<rparr>, \<lparr>chr = ''chr1'', pos = 100\<rparr>])
   \<and> (\<exists>run\<in>set (partition_runs 50 [] (map read_coords (reads_of ''AA''
                     [read_position ''chr1'' 100 ''AA'', read_position ''chr1'' 140 ''AA'',
                      read_position ''chr2'' 7 ''CC'', read_position ''chr1'' 300 ''AA'']))).
         run \<noteq> [] \<and> 100 = Min (pos ` set run) \<and> 140 = Max (pos ` set run)
         \<and> 2 = int (length run))
   \<and> summaries_of ''CC'' (fst (get_gemcode_regions
         [read_position ''chr1'' 100 ''AA'', read_position ''chr1'' 140 ''AA'',
          read_position ''chr2'' 7 ''CC'', read_position ''chr1'' 300 ''AA''] 50))
       = [\<lparr>mol_chr = ''chr2'', mol_start = 7, mol_end = 7, mol_barcode = ''CC'', mol_readcount = 1\<rparr>]"
proof -
  let ?ex = "[read_position ''chr1'' 100 ''AA'', read_position ''chr1'' 140 ''AA'',
              read_position ''chr2'' 7 ''CC'', read_position ''chr1'' 300 ''AA'']"
  let ?m = "\<lparr>mol_chr = ''chr1'', mol_start = 100, mol_end = 140, mol_barcode = ''AA'',
             mol_readcount = 2\<rparr>"
  have h1: "yield_molecule ''AA'' [\<lparr>chr = ''chr1'', pos = 140\<rparr>, \<lparr>chr = ''chr1'', pos = 100\<rparr>]
              = Inr ?m"
    by (simp add: run_defs)
  have h2: "\<forall>r\<in>set ?ex. has_barcode r"
    by (simp add: has_barcode_def get_tag_def read_position_def)
  have h3: "reads_of ''CC'' ?ex = [read_position ''chr2'' 7 ''CC'']"
    by (simp add: reads_of_def get_tag_def read_position_def)
  note inst = interval_correctness [of ?ex 50]
  from inst [THEN conjunct1, rule_format, OF h1]
  have c1: "mol_start ?m
              = Min (pos ` set [\<lparr>chr = ''chr1'', pos = 140\<rparr>, \<lparr>chr = ''chr1'', pos = 100\<rparr>])"
    by blast
  from inst [THEN conjunct2, THEN mp, OF h2, THEN conjunct2, rule_format, OF h3]
  have c2: "summaries_of ''CC'' (fst (get_gemcode_regions ?ex 50))
       = [\<lparr>mol_chr = ''chr2'', mol_start = 7, mol_end = 7, mol_barcode = ''CC'', mol_readcount = 1\<rparr>]"
    by (simp add: read_position_def)
  have h4: "?m \<in> set (fst (get_gemcode_regions ?ex 50))"
    by (simp add: run_defs')
  from inst [THEN conjunct2, THEN mp, OF h2, THEN conjunct1, THEN bspec, OF h4]
  have "\<exists>run\<in>set (partition_runs 50 [] (map read_coords (reads_of (mol_barcode ?m) ?ex))).
         run \<noteq> [] \<and> mol_start ?m = Min (pos ` set run) \<and> mol_end ?m = Max (pos ` set run)
         \<and> mol_readcount ?m = int (length run)"
    by blast
  then have c3: "\<exists>run\<in>set (partition_runs 50 [] (map read_coords (reads_of ''AA'' ?ex))).
         run \<noteq> [] \<and> 100 = Min (pos ` set run) \<and> 140 = Max (pos ` set run)
         \<and> 2 = int (length run)"
    by simp
  from h2 have h2': "list_all has_barcode ?ex" by (simp add: list_all_iff)
  from h1 h2' h3 h4 c1 c2 c3 show ?thesis by blast
qed

text \<open>
  C3 (continuity test). Let \<open>g\<close> be the dictionary after any prefix of the input, \<open>r\<close> a read with
  barcode \<open>gem\<close>, and \<open>cs\<close> the run stored for \<open>gem\<close>. Then \<open>cs\<close> is not empty, and the iteration
  appends \<open>r\<close> to \<open>cs\<close> and yields nothing if and only if the reference of \<open>r\<close> is the
  reference of the run's first read and the position of \<open>r\<close> minus the position appended last
  is at most \<open>dist\<close>; otherwise it closes the run. The position compared is the last one, not
  the least or the greatest of the run. For a threshold \<open>dist \<ge> 0\<close>, the range the
  specification gives the parameter, a negative difference on the same reference is always
  continuous.
\<close>

theorem continuity_test:
  assumes "snd (read_loop dist [] pre) = Inr g"
    and "get_tag r ''RX'' = Inr gem" and "map_of g gem = Some cs"
  shows "cs \<noteq> []
     \<and> (process_read dist g r = Inr ([], AList.update gem (cs @ [read_coords r]) g)
          \<longleftrightarrow> reference_name r = chr (hd cs) \<and> reference_start r - pos (last cs) \<le> dist)
     \<and> (process_read dist g r = Inr ([summary gem cs], AList.update gem [read_coords r] g)
          \<longleftrightarrow> \<not> (reference_name r = chr (hd cs) \<and> reference_start r - pos (last cs) \<le> dist))
     \<and> (0 \<le> dist \<and> reference_name r = chr (hd cs) \<and> reference_start r - pos (last cs) < 0
          \<longrightarrow> process_read dist g r = Inr ([], AList.update gem (cs @ [read_coords r]) g))"
proof -
  note facts = process_read_open [OF assms]
  have test: "continuous dist cs (read_coords r)
      \<longleftrightarrow> reference_name r = chr (hd cs) \<and> reference_start r - pos (last cs) \<le> dist"
    by (simp add: continuous_def read_coords_def)
  show ?thesis
  proof (cases "continuous dist cs (read_coords r)")
    case True
    then have "process_read dist g r = Inr ([], AList.update gem (cs @ [read_coords r]) g)"
      by (rule facts(3))
    then show ?thesis using True facts(1) test by simp
  next
    case False
    then have "process_read dist g r = Inr ([summary gem cs], AList.update gem [read_coords r] g)"
      by (rule facts(4))
    then show ?thesis using False facts(1) test by auto
  qed
qed

theorem continuity_test_witness:
  "snd (read_loop 50 [] [read_position ''chr1'' 100 ''AA''])
     = Inr [(''AA'', [\<lparr>chr = ''chr1'', pos = 100\<rparr>])]
   \<and> get_tag (read_position ''chr1'' 10 ''AA'') ''RX'' = Inr ''AA''
   \<and> map_of [(''AA'', [\<lparr>chr = ''chr1'', pos = 100\<rparr>])] ''AA'' = Some [\<lparr>chr = ''chr1'', pos = 100\<rparr>]
   \<and> reference_start (read_position ''chr1'' 10 ''AA'') - pos (last [\<lparr>chr = ''chr1'', pos = 100\<rparr>]) < 0
   \<and> process_read 50 [(''AA'', [\<lparr>chr = ''chr1'', pos = 100\<rparr>])] (read_position ''chr1'' 10 ''AA'')
       = Inr ([], [(''AA'', [\<lparr>chr = ''chr1'', pos = 100\<rparr>, \<lparr>chr = ''chr1'', pos = 10\<rparr>])])
   \<and> snd (read_loop 50 [] [read_position ''chr1'' 100 ''AA'', read_position ''chr1'' 10 ''AA''])
       = Inr [(''AA'', [\<lparr>chr = ''chr1'', pos = 100\<rparr>, \<lparr>chr = ''chr1'', pos = 10\<rparr>])]
   \<and> get_tag (read_position ''chr1'' 70 ''AA'') ''RX'' = Inr ''AA''
   \<and> map_of [(''AA'', [\<lparr>chr = ''chr1'', pos = 100\<rparr>, \<lparr>chr = ''chr1'', pos = 10\<rparr>])] ''AA''
       = Some [\<lparr>chr = ''chr1'', pos = 100\<rparr>, \<lparr>chr = ''chr1'', pos = 10\<rparr>]
   \<and> process_read 50 [(''AA'', [\<lparr>chr = ''chr1'', pos = 100\<rparr>, \<lparr>chr = ''chr1'', pos = 10\<rparr>])]
         (read_position ''chr1'' 70 ''AA'')
       = Inr ([\<lparr>mol_chr = ''chr1'', mol_start = 10, mol_end = 100, mol_barcode = ''AA'',
                mol_readcount = 2\<rparr>],
              [(''AA'', [\<lparr>chr = ''chr1'', pos = 70\<rparr>])])"
proof -
  let ?c1 = "[\<lparr>chr = ''chr1'', pos = 100\<rparr>]"
  let ?q = "read_position ''chr1'' 10 ''AA''"
  let ?cs = "[\<lparr>chr = ''chr1'', pos = 100\<rparr>, \<lparr>chr = ''chr1'', pos = 10\<rparr>]"
  let ?r = "read_position ''chr1'' 70 ''AA''"
  have k1: "snd (read_loop 50 [] [read_position ''chr1'' 100 ''AA'']) = Inr [(''AA'', ?c1)]"
    by (simp add: run_defs')
  have k2: "get_tag ?q ''RX'' = Inr ''AA''" by (simp add: get_tag_def read_position_def)
  have k3: "map_of [(''AA'', ?c1)] ''AA'' = Some ?c1" by simp
  have k4: "reference_start ?q - pos (last ?c1) < 0" by (simp add: read_position_def)
  have neg: "(0::int) \<le> 50 \<and> reference_name ?q = chr (hd ?c1)
      \<and> reference_start ?q - pos (last ?c1) < 0"
    by (simp add: read_position_def)
  from continuity_test [OF k1 k2 k3] neg
  have "process_read 50 [(''AA'', ?c1)] ?q
          = Inr ([], AList.update ''AA'' (?c1 @ [read_coords ?q]) [(''AA'', ?c1)])"
    by blast
  then have a: "process_read 50 [(''AA'', ?c1)] ?q = Inr ([], [(''AA'', ?cs)])"
    by (simp add: read_coords_def read_position_def)
  have h1: "snd (read_loop 50 [] [read_position ''chr1'' 100 ''AA'', read_position ''chr1'' 10 ''AA''])
     = Inr [(''AA'', ?cs)]"
    by (simp add: run_defs')
  have h2: "get_tag ?r ''RX'' = Inr ''AA''" by (simp add: get_tag_def read_position_def)
  have h3: "map_of [(''AA'', ?cs)] ''AA'' = Some ?cs" by simp
  have far: "\<not> (reference_name ?r = chr (hd ?cs) \<and> reference_start ?r - pos (last ?cs) \<le> 50)"
    by (simp add: read_position_def)
  from continuity_test [OF h1 h2 h3] far
  have "process_read 50 [(''AA'', ?cs)] ?r
          = Inr ([summary ''AA'' ?cs], AList.update ''AA'' [read_coords ?r] [(''AA'', ?cs)])"
    by blast
  then have b: "process_read 50 [(''AA'', ?cs)] ?r
       = Inr ([\<lparr>mol_chr = ''chr1'', mol_start = 10, mol_end = 100, mol_barcode = ''AA'',
                mol_readcount = 2\<rparr>],
              [(''AA'', [\<lparr>chr = ''chr1'', pos = 70\<rparr>])])"
    by (simp add: summary_def read_coords_def read_position_def)
  from k1 k2 k3 k4 a h1 h2 h3 b show ?thesis by blast
qed

text \<open>
  C4 (discontinuity handling). In every dictionary the loop can reach, a read whose barcode has
  an open run and which fails the continuity test makes the iteration yield exactly one
  molecule, the summary of the run stored so far (its read count the length of that run), and
  store the one-element run of the incoming read under the same key, the keys and their order
  unchanged. On the reads (chr1,100,AA), (chr1,140,AA), (chr1,300,AA) with \<open>dist = 50\<close> the
  generator yields chr1 100 140 AA 2 and then chr1 300 300 AA 1, and ends without an exception.
\<close>

theorem discontinuity_split:
  "(\<forall>pre g r gem cs.
      snd (read_loop dist [] pre) = Inr g \<and> get_tag r ''RX'' = Inr gem \<and> map_of g gem = Some cs
        \<and> \<not> continuous dist cs (read_coords r)
      \<longrightarrow> process_read dist g r = Inr ([summary gem cs], AList.update gem [read_coords r] g)
          \<and> mol_readcount (summary gem cs) = int (length cs)
          \<and> map_of (AList.update gem [read_coords r] g) gem = Some [read_coords r]
          \<and> map fst (AList.update gem [read_coords r] g) = map fst g)
   \<and> get_gemcode_regions
        [\<lparr>reference_name = ''chr1'', reference_start = 100, tags = [(''RX'', ''AA'')]\<rparr>,
         \<lparr>reference_name = ''chr1'', reference_start = 140, tags = [(''RX'', ''AA'')]\<rparr>,
         \<lparr>reference_name = ''chr1'', reference_start = 300, tags = [(''RX'', ''AA'')]\<rparr>] 50
      = ([\<lparr>mol_chr = ''chr1'', mol_start = 100, mol_end = 140, mol_barcode = ''AA'', mol_readcount = 2\<rparr>,
          \<lparr>mol_chr = ''chr1'', mol_start = 300, mol_end = 300, mol_barcode = ''AA'', mol_readcount = 1\<rparr>],
         None)"
proof (intro conjI allI impI)
  fix pre g r gem cs
  assume h: "snd (read_loop dist [] pre) = Inr g \<and> get_tag r ''RX'' = Inr gem
     \<and> map_of g gem = Some cs \<and> \<not> continuous dist cs (read_coords r)"
  then have ok: "open_runs_ok g" by (intro reachable_ok [of dist pre]) simp
  from h have tag: "get_tag r ''RX'' = Inr gem" and look: "map_of g gem = Some cs" by simp_all
  have one: "one_reference cs" using ok look by (rule open_runs_ok_lookup)
  then have ne: "cs \<noteq> []" by (rule one_reference_nonempty)
  have "chr (last cs) \<noteq> reference_name r \<or> reference_start r - pos (last cs) > dist"
    using h one_reference_last [OF one] by (auto simp: continuous_def read_coords_def)
  then show "process_read dist g r = Inr ([summary gem cs], AList.update gem [read_coords r] g)"
    by (rule process_read_close [OF tag look ne])
  show "mol_readcount (summary gem cs) = int (length cs)" by (simp add: summary_def)
  show "map_of (AList.update gem [read_coords r] g) gem = Some [read_coords r]"
    by (simp add: update_conv')
  show "map fst (AList.update gem [read_coords r] g) = map fst g"
    using look by (simp add: update_keys map_of_eq_None_iff [symmetric])
next
  show "get_gemcode_regions
        [\<lparr>reference_name = ''chr1'', reference_start = 100, tags = [(''RX'', ''AA'')]\<rparr>,
         \<lparr>reference_name = ''chr1'', reference_start = 140, tags = [(''RX'', ''AA'')]\<rparr>,
         \<lparr>reference_name = ''chr1'', reference_start = 300, tags = [(''RX'', ''AA'')]\<rparr>] 50
      = ([\<lparr>mol_chr = ''chr1'', mol_start = 100, mol_end = 140, mol_barcode = ''AA'', mol_readcount = 2\<rparr>,
          \<lparr>mol_chr = ''chr1'', mol_start = 300, mol_end = 300, mol_barcode = ''AA'', mol_readcount = 1\<rparr>],
         None)"
    by (simp add: run_defs)
qed

theorem discontinuity_split_witness:
  "snd (read_loop 50 []
          [\<lparr>reference_name = ''chr1'', reference_start = 100, tags = [(''RX'', ''AA'')]\<rparr>,
           \<lparr>reference_name = ''chr1'', reference_start = 140, tags = [(''RX'', ''AA'')]\<rparr>])
     = Inr [(''AA'', [\<lparr>chr = ''chr1'', pos = 100\<rparr>, \<lparr>chr = ''chr1'', pos = 140\<rparr>])]
   \<and> get_tag \<lparr>reference_name = ''chr1'', reference_start = 300, tags = [(''RX'', ''AA'')]\<rparr> ''RX''
       = Inr ''AA''
   \<and> map_of [(''AA'', [\<lparr>chr = ''chr1'', pos = 100\<rparr>, \<lparr>chr = ''chr1'', pos = 140\<rparr>])] ''AA''
       = Some [\<lparr>chr = ''chr1'', pos = 100\<rparr>, \<lparr>chr = ''chr1'', pos = 140\<rparr>]
   \<and> \<not> continuous 50 [\<lparr>chr = ''chr1'', pos = 100\<rparr>, \<lparr>chr = ''chr1'', pos = 140\<rparr>]
         (read_coords \<lparr>reference_name = ''chr1'', reference_start = 300, tags = [(''RX'', ''AA'')]\<rparr>)
   \<and> process_read 50 [(''AA'', [\<lparr>chr = ''chr1'', pos = 100\<rparr>, \<lparr>chr = ''chr1'', pos = 140\<rparr>])]
         \<lparr>reference_name = ''chr1'', reference_start = 300, tags = [(''RX'', ''AA'')]\<rparr>
       = Inr ([\<lparr>mol_chr = ''chr1'', mol_start = 100, mol_end = 140, mol_barcode = ''AA'',
                mol_readcount = 2\<rparr>],
              [(''AA'', [\<lparr>chr = ''chr1'', pos = 300\<rparr>])])"
proof -
  let ?r1 = "\<lparr>reference_name = ''chr1'', reference_start = 100, tags = [(''RX'', ''AA'')]\<rparr>"
  let ?r2 = "\<lparr>reference_name = ''chr1'', reference_start = 140, tags = [(''RX'', ''AA'')]\<rparr>"
  let ?r3 = "\<lparr>reference_name = ''chr1'', reference_start = 300, tags = [(''RX'', ''AA'')]\<rparr>"
  let ?cs = "[\<lparr>chr = ''chr1'', pos = 100\<rparr>, \<lparr>chr = ''chr1'', pos = 140\<rparr>]"
  have h: "snd (read_loop 50 [] [?r1, ?r2]) = Inr [(''AA'', ?cs)]
      \<and> get_tag ?r3 ''RX'' = Inr ''AA'' \<and> map_of [(''AA'', ?cs)] ''AA'' = Some ?cs
      \<and> \<not> continuous 50 ?cs (read_coords ?r3)"
    by (simp add: run_defs continuous_def)
  from discontinuity_split [of 50, THEN conjunct1, rule_format, OF h]
  have "process_read 50 [(''AA'', ?cs)] ?r3
          = Inr ([summary ''AA'' ?cs], AList.update ''AA'' [read_coords ?r3] [(''AA'', ?cs)])"
    by simp
  then show ?thesis
    using h by (simp add: summary_def read_coords_def)
qed

text \<open>
  C5 (a read without barcode). As claimed, the failure would be local to the record: the reads
  before and after it would still be partitioned. The generator does otherwise. On the reads
  (chr1,100,AA), an untagged read, (chr1,300,BB) it raises \<open>KeyError\<close> having yielded nothing,
  although without the untagged read the two others give one molecule each.
\<close>

theorem malformed_record_counterexample:
  "\<not> has_barcode \<lparr>reference_name = ''chr1'', reference_start = 200, tags = []\<rparr>
   \<and> get_gemcode_regions
         [read_position ''chr1'' 100 ''AA'',
          \<lparr>reference_name = ''chr1'', reference_start = 200, tags = []\<rparr>,
          read_position ''chr1'' 300 ''BB''] 50
       = ([], Some KeyError)
   \<and> get_gemcode_regions [read_position ''chr1'' 100 ''AA'', read_position ''chr1'' 300 ''BB''] 50
       = ([\<lparr>mol_chr = ''chr1'', mol_start = 100, mol_end = 100, mol_barcode = ''AA'',
             mol_readcount = 1\<rparr>,
           \<lparr>mol_chr = ''chr1'', mol_start = 300, mol_end = 300, mol_barcode = ''BB'',
             mol_readcount = 1\<rparr>], None)"
  by (simp add: run_defs' has_barcode_def)

text \<open>
  C5, as the generator behaves. A read without the \<open>RX\<close> tag makes the iteration raise
  \<open>KeyError\<close> in every dictionary, so the read enters no run. The exception ends the whole
  generator: when the reads before it are tagged, the result is the molecules yielded while
  those reads were processed, followed by \<open>KeyError\<close>, whatever reads come after; the runs
  still open are not yielded.
\<close>

theorem malformed_record_aborts:
  assumes "\<forall>r\<in>set pre. has_barcode r" and "\<not> has_barcode bad"
  shows "process_read dist g bad = Inl KeyError
     \<and> get_gemcode_regions (pre @ bad # post) dist = (fst (read_loop dist [] pre), Some KeyError)"
proof -
  have bad: "process_read dist g' bad = Inl KeyError" for g'
    using assms(2) by (rule process_read_untagged)
  from read_loop_refines [OF open_runs_ok_empty assms(1), of dist]
  obtain ms g1 where "read_loop dist [] pre = (ms, Inr g1)" by blast
  then have "read_loop dist [] (pre @ bad # post) = (fst (read_loop dist [] pre), Inl KeyError)"
    using bad [of g1] by (simp add: read_loop_append)
  then show ?thesis using bad [of g] by (simp add: get_gemcode_regions_def)
qed

theorem malformed_record_aborts_witness:
  "list_all has_barcode [read_position ''chr1'' 100 ''AA'', read_position ''chr1'' 500 ''AA'']
   \<and> \<not> has_barcode \<lparr>reference_name = ''chr1'', reference_start = 600, tags = []\<rparr>
   \<and> get_gemcode_regions
         ([read_position ''chr1'' 100 ''AA'', read_position ''chr1'' 500 ''AA'']
            @ \<lparr>reference_name = ''chr1'', reference_start = 600, tags = []\<rparr>
            # [read_position ''chr1'' 700 ''BB'']) 50
       = ([\<lparr>mol_chr = ''chr1'', mol_start = 100, mol_end = 100, mol_barcode = ''AA'',
             mol_readcount = 1\<rparr>], Some KeyError)"
proof -
  have h1: "\<forall>r\<in>set [read_position ''chr1'' 100 ''AA'', read_position ''chr1'' 500 ''AA'']. has_barcode r"
    by (simp add: has_barcode_def get_tag_def read_position_def)
  have h2: "\<not> has_barcode \<lparr>reference_name = ''chr1'', reference_start = 600, tags = []\<rparr>"
    by (simp add: has_barcode_def get_tag_def)
  have "fst (read_loop 50 [] [read_position ''chr1'' 100 ''AA'', read_position ''chr1'' 500 ''AA''])
      = [\<lparr>mol_chr = ''chr1'', mol_start = 100, mol_end = 100, mol_barcode = ''AA'',
             mol_readcount = 1\<rparr>]"
    by (simp add: run_defs')
  with malformed_record_aborts [OF h1 h2, of 50 "[]" "[read_position ''chr1'' 700 ''BB'']"] h1 h2
  show ?thesis by simp
qed

text \<open>
  C6 (end-of-stream flush). When the loop over the reads ends with dictionary \<open>g\<close>, the generator
  goes on to yield the summary of every run still stored in \<open>g\<close>, after the molecules yielded
  during the loop, and ends without an exception. So on a fully tagged input every read's
  barcode is the barcode of at least one yielded molecule. On no reads the generator yields
  nothing.
\<close>

theorem end_of_stream_flush:
  "(\<forall>g. snd (read_loop dist [] ibam) = Inr g \<longrightarrow>
      get_gemcode_regions ibam dist
        = (fst (read_loop dist [] ibam) @ map (\<lambda>(gem, cs). summary gem cs) g, None))
   \<and> ((\<forall>r\<in>set ibam. has_barcode r) \<longrightarrow>
        snd (get_gemcode_regions ibam dist) = None
        \<and> (\<forall>r\<in>set ibam. \<exists>m\<in>set (fst (get_gemcode_regions ibam dist)).
              get_tag r ''RX'' = Inr (mol_barcode m)))
   \<and> get_gemcode_regions [] dist = ([], None)"
proof (intro conjI allI impI ballI)
  fix g
  assume "snd (read_loop dist [] ibam) = Inr g"
  then show "get_gemcode_regions ibam dist
        = (fst (read_loop dist [] ibam) @ map (\<lambda>(gem, cs). summary gem cs) g, None)"
    by (rule get_gemcode_regions_flush)
next
  assume "\<forall>r\<in>set ibam. has_barcode r"
  from get_gemcode_regions_refines [OF this, of dist]
  show "snd (get_gemcode_regions ibam dist) = None" by auto
next
  fix r
  assume tagged: "\<forall>r\<in>set ibam. has_barcode r" and r: "r \<in> set ibam"
  then obtain b where tag: "get_tag r ''RX'' = Inr b" using has_barcodeE [of r] by auto
  let ?runs = "partition_runs dist [] (map read_coords (reads_of b ibam))"
  have "reads_of b ibam \<noteq> []"
    using r tag by (auto simp: reads_of_def filter_empty_conv)
  then have "?runs \<noteq> []" by (intro partition_runs_nonempty) simp
  moreover from get_gemcode_regions_refines [OF tagged, of dist]
  have "summaries_of b (fst (get_gemcode_regions ibam dist)) = map (summary b) ?runs"
    by auto
  ultimately have "summaries_of b (fst (get_gemcode_regions ibam dist)) \<noteq> []" by simp
  then obtain m where "m \<in> set (summaries_of b (fst (get_gemcode_regions ibam dist)))"
    by (cases "summaries_of b (fst (get_gemcode_regions ibam dist))") auto
  then have "m \<in> set (fst (get_gemcode_regions ibam dist))" "mol_barcode m = b"
    by (simp_all add: summaries_of_def)
  with tag show "\<exists>m\<in>set (fst (get_gemcode_regions ibam dist)).
              get_tag r ''RX'' = Inr (mol_barcode m)"
    by blast
next
  show "get_gemcode_regions [] dist = ([], None)"
    by (simp add: get_gemcode_regions_def)
qed

theorem end_of_stream_flush_witness:
  "snd (read_loop 50 [] [read_position ''chr1'' 10 ''X'', read_position ''chr1'' 10 ''Y''])
     = Inr [(''X'', [\<lparr>chr = ''chr1'', pos = 10\<rparr>]), (''Y'', [\<lparr>chr = ''chr1'', pos = 10\<rparr>])]
   \<and> list_all has_barcode [read_position ''chr1'' 10 ''X'', read_position ''chr1'' 10 ''Y'']
   \<and> get_gemcode_regions [read_position ''chr1'' 10 ''X'', read_position ''chr1'' 10 ''Y''] 50
       = ([\<lparr>mol_chr = ''chr1'', mol_start = 10, mol_end = 10, mol_barcode = ''X'', mol_readcount = 1\<rparr>,
           \<lparr>mol_chr = ''chr1'', mol_start = 10, mol_end = 10, mol_barcode = ''Y'', mol_readcount = 1\<rparr>],
          None)
   \<and> (\<exists>m\<in>set (fst (get_gemcode_regions
                        [read_position ''chr1'' 10 ''X'', read_position ''chr1'' 10 ''Y''] 50)).
         get_tag (read_position ''chr1'' 10 ''Y'') ''RX'' = Inr (mol_barcode m))"
proof -
  let ?ex = "[read_position ''chr1'' 10 ''X'', read_position ''chr1'' 10 ''Y'']"
  have h1: "snd (read_loop 50 [] ?ex)
     = Inr [(''X'', [\<lparr>chr = ''chr1'', pos = 10\<rparr>]), (''Y'', [\<lparr>chr = ''chr1'', pos = 10\<rparr>])]"
    by (simp add: run_defs')
  have h2: "\<forall>r\<in>set ?ex. has_barcode r"
    by (simp add: has_barcode_def get_tag_def read_position_def)
  note inst = end_of_stream_flush [of 50 ?ex]
  from inst [THEN conjunct1, rule_format, OF h1]
  have c1: "get_gemcode_regions ?ex 50
       = ([\<lparr>mol_chr = ''chr1'', mol_start = 10, mol_end = 10, mol_barcode = ''X'', mol_readcount = 1\<rparr>,
           \<lparr>mol_chr = ''chr1'', mol_start = 10, mol_end = 10, mol_barcode = ''Y'', mol_readcount = 1\<rparr>],
          None)"
    by (simp add: run_defs' summary_def)
  from inst [THEN conjunct2, THEN conjunct1, THEN mp, OF h2, THEN conjunct2]
  have c2: "\<forall>r\<in>set ?ex. \<exists>m\<in>set (fst (get_gemcode_regions ?ex 50)).
           get_tag r ''RX'' = Inr (mol_barcode m)" .
  from h2 have h2': "list_all has_barcode ?ex" by (simp add: list_all_iff)
  from c2 have c2': "\<exists>m\<in>set (fst (get_gemcode_regions ?ex 50)).
           get_tag (read_position ''chr1'' 10 ''Y'') ''RX'' = Inr (mol_barcode m)"
    by simp
  from h1 h2' c1 c2' show ?thesis by blast
qed

text \<open>
  C7 (\<open>dist = 0\<close>). As claimed, every read on the same reference at a coordinate other than
  that of the previous read of its barcode would start a new molecule. With \<open>dist = 0\<close>, after
  the read (chr1,100,AA) the read (chr1,50,AA) is on the same reference at another coordinate,
  and yet it is appended to the open run: the two reads come out as the single molecule
  chr1 50 100 AA 2.
\<close>

theorem dist_zero_counterexample:
  "snd (read_loop 0 [] [read_position ''chr1'' 100 ''AA''])
     = Inr [(''AA'', [\<lparr>chr = ''chr1'', pos = 100\<rparr>])]
   \<and> reference_name (read_position ''chr1'' 50 ''AA'') = chr (last [\<lparr>chr = ''chr1'', pos = 100\<rparr>])
   \<and> reference_start (read_position ''chr1'' 50 ''AA'') \<noteq> pos (last [\<lparr>chr = ''chr1'', pos = 100\<rparr>])
   \<and> process_read 0 [(''AA'', [\<lparr>chr = ''chr1'', pos = 100\<rparr>])] (read_position ''chr1'' 50 ''AA'')
       = Inr ([], [(''AA'', [\<lparr>chr = ''chr1'', pos = 100\<rparr>, \<lparr>chr = ''chr1'', pos = 50\<rparr>])])
   \<and> get_gemcode_regions [read_position ''chr1'' 100 ''AA'', read_position ''chr1'' 50 ''AA''] 0
       = ([\<lparr>mol_chr = ''chr1'', mol_start = 50, mol_end = 100, mol_barcode = ''AA'',
             mol_readcount = 2\<rparr>], None)"
  by (simp add: run_defs')

text \<open>
  C7, as the generator behaves. With \<open>dist = 0\<close>, a read on the reference of its barcode's open
  run closes that run and starts a new one when its coordinate is greater than the coordinate
  appended last, and is appended to the run when its coordinate is the same or smaller.
\<close>

theorem dist_zero_split:
  assumes "snd (read_loop 0 [] pre) = Inr g"
    and "get_tag r ''RX'' = Inr gem" and "map_of g gem = Some cs"
    and "reference_name r = chr (hd cs)"
  shows "(pos (last cs) < reference_start r \<longrightarrow>
            process_read 0 g r = Inr ([summary gem cs], AList.update gem [read_coords r] g))
       \<and> (reference_start r \<le> pos (last cs) \<longrightarrow>
            process_read 0 g r = Inr ([], AList.update gem (cs @ [read_coords r]) g))"
proof -
  note facts = process_read_open [OF assms(1,2,3)]
  have "continuous 0 cs (read_coords r) \<longleftrightarrow> reference_start r \<le> pos (last cs)"
    using assms(4) by (simp add: continuous_def read_coords_def)
  then show ?thesis using facts(3,4) by auto
qed

theorem dist_zero_split_witness:
  "snd (read_loop 0 [] [read_position ''chr1'' 100 ''AA''])
     = Inr [(''AA'', [\<lparr>chr = ''chr1'', pos = 100\<rparr>])]
   \<and> get_tag (read_position ''chr1'' 101 ''AA'') ''RX'' = Inr ''AA''
   \<and> get_tag (read_position ''chr1'' 50 ''AA'') ''RX'' = Inr ''AA''
   \<and> map_of [(''AA'', [\<lparr>chr = ''chr1'', pos = 100\<rparr>])] ''AA'' = Some [\<lparr>chr = ''chr1'', pos = 100\<rparr>]
   \<and> reference_name (read_position ''chr1'' 101 ''AA'') = chr (hd [\<lparr>chr = ''chr1'', pos = 100\<rparr>])
   \<and> reference_name (read_position ''chr1'' 50 ''AA'') = chr (hd [\<lparr>chr = ''chr1'', pos = 100\<rparr>])
   \<and> process_read 0 [(''AA'', [\<lparr>chr = ''chr1'', pos = 100\<rparr>])] (read_position ''chr1'' 101 ''AA'')
       = Inr ([\<lparr>mol_chr = ''chr1'', mol_start = 100, mol_end = 100, mol_barcode = ''AA'',
                mol_readcount = 1\<rparr>],
              [(''AA'', [\<lparr>chr = ''chr1'', pos = 101\<rparr>])])
   \<and> process_read 0 [(''AA'', [\<lparr>chr = ''chr1'', pos = 100\<rparr>])] (read_position ''chr1'' 50 ''AA'')
       = Inr ([], [(''AA'', [\<lparr>chr = ''chr1'', pos = 100\<rparr>, \<lparr>chr = ''chr1'', pos = 50\<rparr>])])"
proof -
  let ?cs = "[\<lparr>chr = ''chr1'', pos = 100\<rparr>]"
  let ?r = "read_position ''chr1'' 101 ''AA''"
  let ?q = "read_position ''chr1'' 50 ''AA''"
  have h1: "snd (read_loop 0 [] [read_position ''chr1'' 100 ''AA'']) = Inr [(''AA'', ?cs)]"
    by (simp add: run_defs')
  have h2: "get_tag ?r ''RX'' = Inr ''AA''" by (simp add: get_tag_def read_position_def)
  have k2: "get_tag ?q ''RX'' = Inr ''AA''" by (simp add: get_tag_def read_position_def)
  have h3: "map_of [(''AA'', ?cs)] ''AA'' = Some ?cs" by simp
  have h4: "reference_name ?r = chr (hd ?cs)" by (simp add: read_position_def)
  have k4: "reference_name ?q = chr (hd ?cs)" by (simp add: read_position_def)
  have "pos (last ?cs) < reference_start ?r" by (simp add: read_position_def)
  with dist_zero_split [OF h1 h2 h3 h4]
  have "process_read 0 [(''AA'', ?cs)] ?r
          = Inr ([summary ''AA'' ?cs], AList.update ''AA'' [read_coords ?r] [(''AA'', ?cs)])"
    by blast
  then have a: "process_read 0 [(''AA'', ?cs)] ?r
       = Inr ([\<lparr>mol_chr = ''chr1'', mol_start = 100, mol_end = 100, mol_barcode = ''AA'',
                mol_readcount = 1\<rparr>],
              [(''AA'', [\<lparr>chr = ''chr1'', pos = 101\<rparr>])])"
    by (simp add: summary_def read_coords_def read_position_def)
  have "reference_start ?q \<le> pos (last ?cs)" by (simp add: read_position_def)
  with dist_zero_split [OF h1 k2 h3 k4]
  have "process_read 0 [(''AA'', ?cs)] ?q
          = Inr ([], AList.update ''AA'' (?cs @ [read_coords ?q]) [(''AA'', ?cs)])"
    by blast
  then have b: "process_read 0 [(''AA'', ?cs)] ?q
       = Inr ([], [(''AA'', [\<lparr>chr = ''chr1'', pos = 100\<rparr>, \<lparr>chr = ''chr1'', pos = 50\<rparr>])])"
    by (simp add: read_coords_def read_position_def)
  from h1 h2 k2 h3 h4 k4 a b show ?thesis by blast
qed

text \<open>
  C8 (interleaving independence). For two fully tagged inputs in which the reads of barcode
  \<open>b\<close> form the same subsequence, the molecules yielded with barcode \<open>b\<close> are the same, in the
  same order, whatever the other reads are and however they are interleaved. Every
  interleaving of the X reads (chr1,10), (chr1,20) with the Y reads (chr1,10), (chr1,20), at
  \<open>dist = 50\<close>, yields exactly the two molecules chr1 10 20 X 2 and chr1 10 20 Y 2.
\<close>

theorem interleaving_independence:
  "((\<forall>r\<in>set ibam. has_barcode r) \<and> (\<forall>r\<in>set ibam'. has_barcode r)
      \<and> reads_of b ibam = reads_of b ibam'
    \<longrightarrow> summaries_of b (fst (get_gemcode_regions ibam dist))
          = summaries_of b (fst (get_gemcode_regions ibam' dist)))
   \<and> (\<forall>zs\<in>shuffles [read_position ''chr1'' 10 ''X'', read_position ''chr1'' 20 ''X'']
                     [read_position ''chr1'' 10 ''Y'', read_position ''chr1'' 20 ''Y''].
        snd (get_gemcode_regions zs 50) = None
        \<and> mset (fst (get_gemcode_regions zs 50))
            = {#\<lparr>mol_chr = ''chr1'', mol_start = 10, mol_end = 20, mol_barcode = ''X'',
                  mol_readcount = 2\<rparr>,
                \<lparr>mol_chr = ''chr1'', mol_start = 10, mol_end = 20, mol_barcode = ''Y'',
                  mol_readcount = 2\<rparr>#})"
proof (intro conjI impI)
  assume h: "(\<forall>r\<in>set ibam. has_barcode r) \<and> (\<forall>r\<in>set ibam'. has_barcode r)
      \<and> reads_of b ibam = reads_of b ibam'"
  then have t1: "\<forall>r\<in>set ibam. has_barcode r" and t2: "\<forall>r\<in>set ibam'. has_barcode r"
    and same: "reads_of b ibam = reads_of b ibam'"
    by blast+
  from get_gemcode_regions_refines [OF t1, of dist]
  have "summaries_of b (fst (get_gemcode_regions ibam dist))
          = map (summary b) (partition_runs dist [] (map read_coords (reads_of b ibam)))"
    by auto
  moreover from get_gemcode_regions_refines [OF t2, of dist]
  have "summaries_of b (fst (get_gemcode_regions ibam' dist))
          = map (summary b) (partition_runs dist [] (map read_coords (reads_of b ibam')))"
    by auto
  ultimately show "summaries_of b (fst (get_gemcode_regions ibam dist))
          = summaries_of b (fst (get_gemcode_regions ibam' dist))"
    by (simp only: same)
next
  show "\<forall>zs\<in>shuffles [read_position ''chr1'' 10 ''X'', read_position ''chr1'' 20 ''X'']
                     [read_position ''chr1'' 10 ''Y'', read_position ''chr1'' 20 ''Y''].
        snd (get_gemcode_regions zs 50) = None
        \<and> mset (fst (get_gemcode_regions zs 50))
            = {#\<lparr>mol_chr = ''chr1'', mol_start = 10, mol_end = 20, mol_barcode = ''X'',
                  mol_readcount = 2\<rparr>,
                \<lparr>mol_chr = ''chr1'', mol_start = 10, mol_end = 20, mol_barcode = ''Y'',
                  mol_readcount = 2\<rparr>#}"
    by (simp add: run_defs')
qed

theorem interleaving_independence_witness:
  "list_all has_barcode [read_position ''chr1'' 10 ''X'', read_position ''chr1'' 10 ''Y'',
                read_position ''chr1'' 20 ''X'', read_position ''chr1'' 20 ''Y'']
   \<and> list_all has_barcode [read_position ''chr1'' 10 ''Y'', read_position ''chr1'' 20 ''Y'',
                  read_position ''chr1'' 10 ''X'', read_position ''chr1'' 20 ''X'']
   \<and> reads_of ''X'' [read_position ''chr1'' 10 ''X'', read_position ''chr1'' 10 ''Y'',
                      read_position ''chr1'' 20 ''X'', read_position ''chr1'' 20 ''Y'']
       = reads_of ''X'' [read_position ''chr1'' 10 ''Y'', read_position ''chr1'' 20 ''Y'',
                        read_position ''chr1'' 10 ''X'', read_position ''chr1'' 20 ''X'']
   \<and> [read_position ''chr1'' 10 ''Y'', read_position ''chr1'' 20 ''Y'',
       read_position ''chr1'' 10 ''X'', read_position ''chr1'' 20 ''X'']
       \<in> shuffles [read_position ''chr1'' 10 ''X'', read_position ''chr1'' 20 ''X'']
                   [read_position ''chr1'' 10 ''Y'', read_position ''chr1'' 20 ''Y'']
   \<and> summaries_of ''X'' (fst (get_gemcode_regions
         [read_position ''chr1'' 10 ''X'', read_position ''chr1'' 10 ''Y'',
          read_position ''chr1'' 20 ''X'', read_position ''chr1'' 20 ''Y''] 50))
       = summaries_of ''X'' (fst (get_gemcode_regions
           [read_position ''chr1'' 10 ''Y'', read_position ''chr1'' 20 ''Y'',
            read_position ''chr1'' 10 ''X'', read_position ''chr1'' 20 ''X''] 50))
   \<and> mset (fst (get_gemcode_regions
         [read_position ''chr1'' 10 ''Y'', read_position ''chr1'' 20 ''Y'',
          read_position ''chr1'' 10 ''X'', read_position ''chr1'' 20 ''X''] 50))
       = {#\<lparr>mol_chr = ''chr1'', mol_start = 10, mol_end = 20, mol_barcode = ''X'',
             mol_readcount = 2\<rparr>,
           \<lparr>mol_chr = ''chr1'', mol_start = 10, mol_end = 20, mol_barcode = ''Y'',
             mol_readcount = 2\<rparr>#}"
proof -
  let ?a = "[read_position ''chr1'' 10 ''X'', read_position ''chr1'' 10 ''Y'',
             read_position ''chr1'' 20 ''X'', read_position ''chr1'' 20 ''Y'']"
  let ?b = "[read_position ''chr1'' 10 ''Y'', read_position ''chr1'' 20 ''Y'',
             read_position ''chr1'' 10 ''X'', read_position ''chr1'' 20 ''X'']"
  have h1: "\<forall>r\<in>set ?a. has_barcode r"
    by (simp add: has_barcode_def get_tag_def read_position_def)
  have h2: "\<forall>r\<in>set ?b. has_barcode r"
    by (simp add: has_barcode_def get_tag_def read_position_def)
  have h3: "reads_of ''X'' ?a = reads_of ''X'' ?b"
    by (simp add: reads_of_def get_tag_def read_position_def)
  have h4: "?b \<in> shuffles [read_position ''chr1'' 10 ''X'', read_position ''chr1'' 20 ''X'']
                   [read_position ''chr1'' 10 ''Y'', read_position ''chr1'' 20 ''Y'']"
    by simp
  note inst = interleaving_independence [of ?a ?b "''X''" 50]
  from inst [THEN conjunct1, THEN mp] h1 h2 h3
  have c1: "summaries_of ''X'' (fst (get_gemcode_regions ?a 50))
              = summaries_of ''X'' (fst (get_gemcode_regions ?b 50))"
    by blast
  from inst [THEN conjunct2, THEN bspec, OF h4]
  have c2: "mset (fst (get_gemcode_regions ?b 50))
       = {#\<lparr>mol_chr = ''chr1'', mol_start = 10, mol_end = 20, mol_barcode = ''X'',
             mol_readcount = 2\<rparr>,
           \<lparr>mol_chr = ''chr1'', mol_start = 10, mol_end = 20, mol_barcode = ''Y'',
             mol_readcount = 2\<rparr>#}"
    by blast
  from h1 have h1': "list_all has_barcode ?a" by (simp add: list_all_iff)
  from h2 have h2': "list_all has_barcode ?b" by (simp add: list_all_iff)
  from h1' h2' h3 h4 c1 c2 show ?thesis by blast
qed

text \<open>
  C9 (one reference per run). In the dictionary after any prefix of the input, every stored run
  is non-empty and all its entries have the reference of its first entry, so that comparing a
  read's reference with the last entry is the same as comparing it with the first. On a fully
  tagged input every yielded molecule is the summary of a run of its barcode's reads; its
  reference is that of the run's first read and of every read of the run.
\<close>

theorem one_reference_per_run:
  "(\<forall>g. snd (read_loop dist [] pre) = Inr g \<longrightarrow>
      (\<forall>(gem, cs)\<in>set g. cs \<noteq> [] \<and> (\<forall>c\<in>set cs. chr c = chr (hd cs))
          \<and> (\<forall>r. (chr (last cs) \<noteq> reference_name r) = (chr (hd cs) \<noteq> reference_name r))))
   \<and> ((\<forall>r\<in>set ibam. has_barcode r) \<longrightarrow>
        (\<forall>m\<in>set (fst (get_gemcode_regions ibam dist)).
           \<exists>run\<in>set (partition_runs dist [] (map read_coords (reads_of (mol_barcode m) ibam))).
             m = summary (mol_barcode m) run \<and> mol_chr m = chr (hd run)
             \<and> (\<forall>c\<in>set run. chr c = mol_chr m)))"
proof (intro conjI allI impI ballI)
  fix g p
  assume g: "snd (read_loop dist [] pre) = Inr g" and p: "p \<in> set g"
  have ok: "open_runs_ok g" using g by (rule reachable_ok)
  obtain gem cs where pc: "p = (gem, cs)" by (cases p)
  have one: "one_reference cs" using ok p unfolding open_runs_ok_def pc by blast
  have "cs \<noteq> []" using one by (rule one_reference_nonempty)
  moreover have "\<forall>c\<in>set cs. chr c = chr (hd cs)"
    using one_reference_chr [OF one] by blast
  moreover have "\<forall>r. (chr (last cs) \<noteq> reference_name r) = (chr (hd cs) \<noteq> reference_name r)"
    by (simp only: one_reference_last [OF one]) simp
  ultimately have "cs \<noteq> [] \<and> (\<forall>c\<in>set cs. chr c = chr (hd cs))
          \<and> (\<forall>r. (chr (last cs) \<noteq> reference_name r) = (chr (hd cs) \<noteq> reference_name r))"
    by blast
  then show "case p of (gem, cs) \<Rightarrow> cs \<noteq> [] \<and> (\<forall>c\<in>set cs. chr c = chr (hd cs))
          \<and> (\<forall>r. (chr (last cs) \<noteq> reference_name r) = (chr (hd cs) \<noteq> reference_name r))"
    by (simp add: pc)
next
  fix m
  assume tagged: "\<forall>r\<in>set ibam. has_barcode r"
    and m: "m \<in> set (fst (get_gemcode_regions ibam dist))"
  from emitted_run [OF tagged m] obtain run where
    run: "run \<in> set (partition_runs dist [] (map read_coords (reads_of (mol_barcode m) ibam)))"
    and eq0: "m = summary (mol_barcode m) run" and one: "one_reference run"
    by blast
  define b where "b = mol_barcode m"
  have eq: "m = summary b run" using eq0 by (simp only: b_def)
  have hdm: "mol_chr m = chr (hd run)" unfolding eq by (simp add: summary_def)
  have "\<forall>c\<in>set run. chr c = mol_chr m"
    unfolding hdm using one_reference_chr [OF one] by blast
  with hdm show "\<exists>run\<in>set (partition_runs dist [] (map read_coords (reads_of (mol_barcode m) ibam))).
             m = summary (mol_barcode m) run \<and> mol_chr m = chr (hd run)
             \<and> (\<forall>c\<in>set run. chr c = mol_chr m)"
    using run eq0 by blast
qed

theorem one_reference_per_run_witness:
  "snd (read_loop 50 [] [read_position ''chr1'' 100 ''AA'', read_position ''chr1'' 140 ''AA''])
     = Inr [(''AA'', [\<lparr>chr = ''chr1'', pos = 100\<rparr>, \<lparr>chr = ''chr1'', pos = 140\<rparr>])]
   \<and> list_all has_barcode [read_position ''chr1'' 100 ''AA'', read_position ''chr2'' 140 ''AA'']
   \<and> \<lparr>mol_chr = ''chr2'', mol_start = 140, mol_end = 140, mol_barcode = ''AA'', mol_readcount = 1\<rparr>
       \<in> set (fst (get_gemcode_regions
                     [read_position ''chr1'' 100 ''AA'', read_position ''chr2'' 140 ''AA''] 50))
   \<and> list_all (\<lambda>(gem, cs). list_all (\<lambda>c. chr c = chr (hd cs)) cs)
        [(''AA'', [\<lparr>chr = ''chr1'', pos = 100\<rparr>, \<lparr>chr = ''chr1'', pos = 140\<rparr>])]
   \<and> (\<exists>run\<in>set (partition_runs 50 [] (map read_coords (reads_of ''AA''
                     [read_position ''chr1'' 100 ''AA'', read_position ''chr2'' 140 ''AA'']))).
         \<forall>c\<in>set run. chr c = ''chr2'')"
proof -
  let ?pre = "[read_position ''chr1'' 100 ''AA'', read_position ''chr1'' 140 ''AA'']"
  let ?ex = "[read_position ''chr1'' 100 ''AA'', read_position ''chr2'' 140 ''AA'']"
  let ?g = "[(''AA'', [\<lparr>chr = ''chr1'', pos = 100\<rparr>, \<lparr>chr = ''chr1'', pos = 140\<rparr>])]"
  let ?m = "\<lparr>mol_chr = ''chr2'', mol_start = 140, mol_end = 140, mol_barcode = ''AA'',
             mol_readcount = 1\<rparr>"
  have h1: "snd (read_loop 50 [] ?pre) = Inr ?g"
    by (simp add: run_defs')
  have h2: "\<forall>r\<in>set ?ex. has_barcode r"
    by (simp add: has_barcode_def get_tag_def read_position_def)
  have h3: "?m \<in> set (fst (get_gemcode_regions ?ex 50))"
    by (simp add: run_defs')
  from one_reference_per_run [of 50 ?pre ?ex, THEN conjunct1, rule_format, OF h1]
  have "\<forall>(gem, cs)\<in>set ?g. \<forall>c\<in>set cs. chr c = chr (hd cs)"
    by blast
  then have c1: "list_all (\<lambda>(gem, cs). list_all (\<lambda>c. chr c = chr (hd cs)) cs) ?g"
    by (simp add: list_all_iff)
  from one_reference_per_run [of 50 ?pre ?ex, THEN conjunct2, THEN mp, OF h2, THEN bspec, OF h3]
  have "\<exists>run\<in>set (partition_runs 50 [] (map read_coords (reads_of (mol_barcode ?m) ?ex))).
         \<forall>c\<in>set run. chr c = mol_chr ?m"
    by blast
  then have c2: "\<exists>run\<in>set (partition_runs 50 [] (map read_coords (reads_of ''AA'' ?ex))).
         \<forall>c\<in>set run. chr c = ''chr2''"
    by simp
  from h2 have h2': "list_all has_barcode ?ex" by (simp add: list_all_iff)
  from h1 h2' h3 c1 c2 show ?thesis by blast
qed

text \<open>
  C10 (\<open>main\<close> ends in \<open>NameError\<close>). Let \<open>f\<close> not be among the built-in names, as in every
  version of Python. Whenever the generator ends without an exception, \<open>main\<close> has written one
  line per molecule, five tab-separated columns and a newline, in the order the molecules were
  yielded, and then raises \<open>NameError\<close> at \<open>f.close()\<close>: the file is bound to \<open>fout\<close>, and
  nothing binds \<open>f\<close>.
\<close>

theorem main_raises_NameError:
  assumes "''f'' \<notin> set builtins" and "snd (get_gemcode_regions ibam dist) = None"
  shows "main builtins ibam dist
           = (concat (map bed_line (fst (get_gemcode_regions ibam dist))), Some NameError)"
proof -
  have "load_global builtins ''f'' = Inl NameError"
    using assms(1) by (simp add: load_global_def module_globals_def)
  then show ?thesis
    using assms(2) by (cases "get_gemcode_regions ibam dist") (simp add: main_def)
qed

theorem main_raises_NameError_witness:
  "''f'' \<notin> set [''open'', ''min'', ''max'', ''len'']
   \<and> snd (get_gemcode_regions
            [read_position ''chr1'' 100 ''AA'', read_position ''chr1'' 140 ''AA'',
             read_position ''chr1'' 300 ''AA''] 50) = None
   \<and> main [''open'', ''min'', ''max'', ''len'']
        [read_position ''chr1'' 100 ''AA'', read_position ''chr1'' 140 ''AA'',
         read_position ''chr1'' 300 ''AA''] 50
      = (''chr1'' @ [CHR 0x09] @ ''100'' @ [CHR 0x09] @ ''140'' @ [CHR 0x09] @ ''AA'' @ [CHR 0x09]
           @ ''2'' @ [CHR 0x0A]
         @ ''chr1'' @ [CHR 0x09] @ ''300'' @ [CHR 0x09] @ ''300'' @ [CHR 0x09] @ ''AA'' @ [CHR 0x09]
           @ ''1'' @ [CHR 0x0A],
         Some NameError)"
proof -
  let ?ex = "[read_position ''chr1'' 100 ''AA'', read_position ''chr1'' 140 ''AA'',
              read_position ''chr1'' 300 ''AA'']"
  have h1: "''f'' \<notin> set [''open'', ''min'', ''max'', ''len'']" by simp
  have run: "get_gemcode_regions ?ex 50
      = ([\<lparr>mol_chr = ''chr1'', mol_start = 100, mol_end = 140, mol_barcode = ''AA'', mol_readcount = 2\<rparr>,
          \<lparr>mol_chr = ''chr1'', mol_start = 300, mol_end = 300, mol_barcode = ''AA'', mol_readcount = 1\<rparr>],
         None)"
    by (simp add: run_defs')
  then have h2: "snd (get_gemcode_regions ?ex 50) = None" by simp
  from main_raises_NameError [OF h1 h2]
  have "main [''open'', ''min'', ''max'', ''len''] ?ex 50
      = (''chr1'' @ [CHR 0x09] @ ''100'' @ [CHR 0x09] @ ''140'' @ [CHR 0x09] @ ''AA'' @ [CHR 0x09]
           @ ''2'' @ [CHR 0x0A]
         @ ''chr1'' @ [CHR 0x09] @ ''300'' @ [CHR 0x09] @ ''300'' @ [CHR 0x09] @ ''AA'' @ [CHR 0x09]
           @ ''1'' @ [CHR 0x0A],
         Some NameError)"
    by (simp add: run bed_line_def bed_str_def str_int_def str_nat.simps digit_char_def)
  with h1 h2 show ?thesis by blast
qed

end
